theory Spec2Isabelle
  imports Main "HOL-Library.AList"
begin

section \<open>Strings and numbers of the host language\<close>

text \<open>
  A \<open>char\<close> stands for a UTF-16 code unit below 256, so a \<open>string\<close> is a string of
  the program whose code units all lie below 256. Numbers are mathematical integers
  (the program's numbers are exact on integers below \<open>2 ^ 53\<close>); \<open>None\<close> is NaN.
\<close>

definition is_space :: "char \<Rightarrow> bool" where
  \<comment> \<open>the code units below 256 that the regular expression \<open>\s\<close> and \<open>trim\<close> accept:
      TAB, LF, VT, FF, CR, SPACE, NBSP\<close>
  "is_space c = (of_char c \<in> {9, 10, 11, 12, 13, 32, 160 :: nat})"

definition is_digit :: "char \<Rightarrow> bool" where
  "is_digit c = (48 \<le> (of_char c :: nat) \<and> (of_char c :: nat) \<le> 57)"

definition digit_val :: "char \<Rightarrow> int" where
  "digit_val c = int (of_char c) - 48"

definition trim :: "string \<Rightarrow> string" where
  "trim s = rev (dropWhile is_space (rev (dropWhile is_space s)))"

text \<open>\<open>s.split(/\s+/)\<close>: the pieces between maximal runs of white space.\<close>

function split_ws :: "string \<Rightarrow> string list" where
  "split_ws [] = [[]]"
| "split_ws (c # cs) =
     (if is_space c then [] # split_ws (dropWhile is_space cs)
      else (case split_ws cs of
              [] \<Rightarrow> [[c]]
            | p # ps \<Rightarrow> (c # p) # ps))"
  by pat_completeness auto
termination
  by (relation "measure length") (auto simp: less_Suc_eq_le length_dropWhile_le)

text \<open>\<open>s.split(d)\<close> for a one-character separator \<open>d\<close>.\<close>

fun split_on :: "char \<Rightarrow> string \<Rightarrow> string list" where
  "split_on d [] = [[]]"
| "split_on d (c # cs) =
     (if c = d then [] # split_on d cs
      else (case split_on d cs of
              [] \<Rightarrow> [[c]]
            | p # ps \<Rightarrow> (c # p) # ps))"

text \<open>
  \<open>Number(s)\<close> on the strings a cron field is cut into. The empty string is 0 and a
  string of decimal digits is its value. Every other string is taken as NaN: this is
  what the program computes for every piece of a field written with digits,
  \<open>,\<close>, \<open>-\<close> and \<open>*\<close>; signs, fractions, exponents, radix prefixes and
  \<open>Infinity\<close>, which the program's \<open>Number\<close> also reads, are outside the model.
\<close>

definition Number :: "string \<Rightarrow> int option" where
  "Number s =
     (if s = [] then Some 0
      else if list_all is_digit s then Some (foldl (\<lambda>a c. 10 * a + digit_val c) 0 s)
      else None)"

section \<open>Cron fields (scheduler.ts)\<close>

text \<open>One comma-separated part of a field: the values it pushes (\<open>None\<close> is NaN).\<close>

definition parsePart :: "string \<Rightarrow> int option list" where
  "parsePart part =
     (if CHR ''-'' \<in> set part then
        (case map Number (split_on CHR ''-'' part) of
           Some start # Some end # _ \<Rightarrow> map Some [start..end]
         | _ \<Rightarrow> [])
      else [Number part])"

definition parseCronField :: "string \<Rightarrow> int \<Rightarrow> int \<Rightarrow> int list" where
  "parseCronField field lo hi =
     (if field = ''*'' then [lo..hi]
      else
        [v. Some v \<leftarrow> concat (map parsePart (split_on CHR '','' field)), lo \<le> v \<and> v \<le> hi])"

section \<open>Dates of the host language\<close>

text \<open>
  A \<open>Date\<close> is its time value: milliseconds since 1970-01-01T00:00:00Z, here any
  integer (the program's dates are valid within \<open>8.64 * 10 ^ 15\<close> ms of the epoch; the
  clock never leaves that range). Local time is UTC plus a fixed number \<open>tz\<close> of minutes:
  daylight-saving changes are not modelled.
\<close>

type_synonym Date = int

definition msPerMinute :: int where "msPerMinute = 60000"
definition msPerHour :: int where "msPerHour = 3600000"
definition msPerDay :: int where "msPerDay = 86400000"

definition LocalTime :: "int \<Rightarrow> Date \<Rightarrow> int" where
  "LocalTime tz t = t + tz * msPerMinute"

text \<open>
  The proleptic Gregorian date (year, month 1..12, day of the month) of a day number
  counted from 1970-01-01. Years are counted from 1 March, so that the leap day is the
  last day of its year, of its 4-year cycle, of its century and of its 400-year era.
\<close>

definition month_day :: "int \<Rightarrow> int \<times> int" where
  \<comment> \<open>the month (0 is March) and the day in it (from 0) of a day of the year from 1 March\<close>
  "month_day doy =
     (if doy < 31 then (0, doy)
      else if doy < 61 then (1, doy - 31)
      else if doy < 92 then (2, doy - 61)
      else if doy < 122 then (3, doy - 92)
      else if doy < 153 then (4, doy - 122)
      else if doy < 184 then (5, doy - 153)
      else if doy < 214 then (6, doy - 184)
      else if doy < 245 then (7, doy - 214)
      else if doy < 275 then (8, doy - 245)
      else if doy < 306 then (9, doy - 275)
      else if doy < 337 then (10, doy - 306)
      else (11, doy - 337))"

definition year_day :: "int \<Rightarrow> int \<times> int" where
  \<comment> \<open>the year counted from 1 March of year 0, and the day in it (from 0), of a day number
      counted from 0000-03-01\<close>
  "year_day z =
     (let era = z div 146097;
          doe = z mod 146097;
          n100 = min (doe div 36524) 3;
          d2 = doe - n100 * 36524;
          n4 = d2 div 1461;
          d3 = d2 mod 1461;
          n1 = min (d3 div 365) 3
      in (400 * era + 100 * n100 + 4 * n4 + n1, d3 - n1 * 365))"

definition civil_from_days :: "int \<Rightarrow> int \<times> int \<times> int" where
  "civil_from_days z0 =
     (let y = fst (year_day (z0 + 719468));
          doy = snd (year_day (z0 + 719468));
          mp = fst (month_day doy);
          d = snd (month_day doy) + 1;
          m = (if mp < 10 then mp + 3 else mp - 9)
      in (if m \<le> 2 then y + 1 else y, m, d))"

definition YearFromTime :: "int \<Rightarrow> int" where
  "YearFromTime t = fst (civil_from_days (t div msPerDay))"

definition MonthFromTime :: "int \<Rightarrow> int" where
  \<comment> \<open>0 is January\<close>
  "MonthFromTime t = fst (snd (civil_from_days (t div msPerDay))) - 1"

definition DateFromTime :: "int \<Rightarrow> int" where
  "DateFromTime t = snd (snd (civil_from_days (t div msPerDay)))"

definition WeekDay :: "int \<Rightarrow> int" where
  \<comment> \<open>0 is Sunday; 1970-01-01 was a Thursday\<close>
  "WeekDay t = (t div msPerDay + 4) mod 7"

definition HourFromTime :: "int \<Rightarrow> int" where
  "HourFromTime t = (t div msPerHour) mod 24"

definition MinFromTime :: "int \<Rightarrow> int" where
  "MinFromTime t = (t div msPerMinute) mod 60"

definition SecFromTime :: "int \<Rightarrow> int" where
  "SecFromTime t = (t div 1000) mod 60"

definition msFromTime :: "int \<Rightarrow> int" where
  "msFromTime t = t mod 1000"

definition getMinutes :: "int \<Rightarrow> Date \<Rightarrow> int" where
  "getMinutes tz t = MinFromTime (LocalTime tz t)"

definition getHours :: "int \<Rightarrow> Date \<Rightarrow> int" where
  "getHours tz t = HourFromTime (LocalTime tz t)"

definition getDate :: "int \<Rightarrow> Date \<Rightarrow> int" where
  "getDate tz t = DateFromTime (LocalTime tz t)"

definition getMonth :: "int \<Rightarrow> Date \<Rightarrow> int" where
  "getMonth tz t = MonthFromTime (LocalTime tz t)"

definition getDay :: "int \<Rightarrow> Date \<Rightarrow> int" where
  "getDay tz t = WeekDay (LocalTime tz t)"

text \<open>
  \<open>n.toString(radix)\<close> for an integer, and \<open>padStart\<close> with zeros.
\<close>

definition digit_char :: "int \<Rightarrow> char" where
  "digit_char d = ''0123456789abcdefghijklmnopqrstuvwxyz'' ! nat d"

function toStringRadix :: "int \<Rightarrow> int \<Rightarrow> string" where
  "toStringRadix r n =
     (if n < 0 then CHR ''-'' # toStringRadix r (- n)
      else if n < r \<or> r < 2 then [digit_char n]
      else toStringRadix r (n div r) @ [digit_char (n mod r)])"
  by pat_completeness auto
termination
proof (relation "measure (\<lambda>(r, n). if n < 0 then nat (- n) + 1 else nat n)")
  show "wf (measure (\<lambda>(r, n). if n < 0 then nat (- n) + 1 else nat n))"
    by simp
next
  fix r n :: int
  assume "n < 0"
  then show "((r, - n), (r, n)) \<in> measure (\<lambda>(r, n). if n < 0 then nat (- n) + 1 else nat n)"
    by simp
next
  fix r n :: int
  assume a: "\<not> n < 0" "\<not> (n < r \<or> r < 2)"
  then have "0 \<le> n div r" "n div r < n"
    by (simp_all add: pos_imp_zdiv_nonneg_iff int_div_less_self)
  with a show "((r, n div r), (r, n)) \<in> measure (\<lambda>(r, n). if n < 0 then nat (- n) + 1 else nat n)"
    by simp
qed

definition pad :: "nat \<Rightarrow> string \<Rightarrow> string" where
  "pad w s = replicate (w - length s) CHR ''0'' @ s"

definition pad_int :: "nat \<Rightarrow> int \<Rightarrow> string" where
  "pad_int w n = pad w (toStringRadix 10 n)"

text \<open>
  \<open>toISOString\<close>: the UTC fields as \<open>YYYY-MM-DDTHH:mm:ss.sssZ\<close>, with a signed
  six-digit year outside 0..9999.
\<close>

definition toISOString :: "Date \<Rightarrow> string" where
  "toISOString t =
     (let y = YearFromTime t in
        (if 0 \<le> y \<and> y \<le> 9999 then pad_int 4 y
         else (if y < 0 then ''-'' else ''+'') @ pad_int 6 (abs y))
        @ ''-'' @ pad_int 2 (MonthFromTime t + 1)
        @ ''-'' @ pad_int 2 (DateFromTime t)
        @ ''T'' @ pad_int 2 (HourFromTime t)
        @ '':'' @ pad_int 2 (MinFromTime t)
        @ '':'' @ pad_int 2 (SecFromTime t)
        @ ''.'' @ pad_int 3 (msFromTime t)
        @ ''Z'')"

section \<open>Cron matching and the next run time (scheduler.ts)\<close>

definition matchesCron :: "int \<Rightarrow> string \<Rightarrow> Date \<Rightarrow> bool" where
  "matchesCron tz expr date =
     (case split_ws (trim expr) of
        [minuteField, hourField, domField, monthField, dowField] \<Rightarrow>
          getMinutes tz date \<in> set (parseCronField minuteField 0 59) \<and>
          getHours tz date \<in> set (parseCronField hourField 0 23) \<and>
          getDate tz date \<in> set (parseCronField domField 1 31) \<and>
          getMonth tz date + 1 \<in> set (parseCronField monthField 1 12) \<and>
          getDay tz date \<in> set (parseCronField dowField 0 6)
      | _ \<Rightarrow> False)"

definition maxMinutes :: nat where
  "maxMinutes = 7 * 24 * 60"

text \<open>
  The loop of \<open>getNextRunTime\<close>: \<open>n\<close> iterations are left and \<open>check\<close> is the
  candidate minute.
\<close>

fun scanMinutes :: "int \<Rightarrow> string \<Rightarrow> nat \<Rightarrow> Date \<Rightarrow> string option" where
  "scanMinutes tz expr 0 check = None"
| "scanMinutes tz expr (Suc n) check =
     (if matchesCron tz expr check then Some (toISOString check)
      else scanMinutes tz expr n (check + msPerMinute))"

text \<open>
  \<open>setSeconds(0)\<close> and \<open>setMilliseconds(0)\<close> cut a date down to its minute (local
  time is a whole number of minutes from UTC); \<open>setMinutes(getMinutes() + 1)\<close> adds
  one minute. \<open>now\<close> is the reading of the clock.
\<close>

definition startOfMinute :: "Date \<Rightarrow> Date" where
  "startOfMinute t = t - t mod msPerMinute"

definition getNextRunTime :: "int \<Rightarrow> Date \<Rightarrow> string \<Rightarrow> string option" where
  "getNextRunTime tz now expr =
     scanMinutes tz expr maxMinutes (startOfMinute now + msPerMinute)"

section \<open>The scheduler's state and operations (scheduler.ts)\<close>

record ScheduledTask =
  task_id :: string
  cron :: string
  prompt :: string
  enabled :: bool
  createdAt :: string
  lastRunAt :: "string option"
  nextRunAt :: "string option"

datatype callback_result = Returns | Throws

type_synonym ScheduledTaskCallback = "ScheduledTask \<Rightarrow> callback_result"

text \<open>
  The module's variables. \<open>schedules\<close> is the \<open>Map\<close> in insertion order;
  \<open>timerId\<close> is whether the interval timer is set.
\<close>

record scheduler =
  schedules :: "(string \<times> ScheduledTask) list"
  timerId :: bool
  onFireCallback :: "ScheduledTaskCallback option"

definition startTimer :: "scheduler \<Rightarrow> scheduler" where
  "startTimer s = s\<lparr>timerId := True\<rparr>"

definition stopTimer :: "scheduler \<Rightarrow> scheduler" where
  "stopTimer s = (if timerId s then s\<lparr>timerId := False\<rparr> else s)"

text \<open>
  \<open>addScheduledTask\<close>: \<open>now\<close> is the reading of the clock (taken as one instant
  for the whole call) and \<open>suffix\<close> the five characters drawn
  from \<open>Math.random()\<close>.
\<close>

definition addScheduledTask ::
  "int \<Rightarrow> Date \<Rightarrow> string \<Rightarrow> string \<Rightarrow> string \<Rightarrow> scheduler \<Rightarrow> ScheduledTask \<times> scheduler" where
  "addScheduledTask tz now suffix expr p s =
     (let ident = ''sched-'' @ toStringRadix 36 now @ ''-'' @ suffix;
          task = \<lparr>task_id = ident, cron = expr, prompt = p, enabled = True,
                  createdAt = toISOString now, lastRunAt = None,
                  nextRunAt = getNextRunTime tz now expr\<rparr>;
          s1 = s\<lparr>schedules := AList.update ident task (schedules s)\<rparr>
      in (task, if \<not> timerId s1 then startTimer s1 else s1))"

definition listScheduledTasks :: "scheduler \<Rightarrow> ScheduledTask list" where
  "listScheduledTasks s = map snd (schedules s)"

definition cancelScheduledTask :: "string \<Rightarrow> scheduler \<Rightarrow> scheduler" where
  "cancelScheduledTask scheduleId s =
     (let s1 = s\<lparr>schedules := AList.delete scheduleId (schedules s)\<rparr>
      in if schedules s1 = [] \<and> timerId s1 then stopTimer s1 else s1)"

definition onScheduledTaskFire :: "ScheduledTaskCallback \<Rightarrow> scheduler \<Rightarrow> scheduler" where
  "onScheduledTaskFire callback s = s\<lparr>onFireCallback := Some callback\<rparr>"

definition disposeScheduler :: "scheduler \<Rightarrow> scheduler" where
  "disposeScheduler s = (stopTimer s)\<lparr>schedules := [], onFireCallback := None\<rparr>"

text \<open>
  What one \<open>tick\<close> does, in the order it does it: the assignments to a task's fields,
  the calls of the fire callback (with the task as it is at the call) and the errors
  caught from it.
\<close>

datatype tick_event =
    AssignLastRunAt string string
  | AssignNextRunAt string "string option"
  | CallbackInvoked ScheduledTask
  | CallbackErrorCaught string

text \<open>The body of the loop of \<open>tick\<close> for one task.\<close>

definition tickTask ::
  "int \<Rightarrow> Date \<Rightarrow> ScheduledTaskCallback option \<Rightarrow> ScheduledTask \<Rightarrow> ScheduledTask \<times> tick_event list" where
  "tickTask tz now cb task =
     (if \<not> enabled task then (task, [])
      else if matchesCron tz (cron task) now then
        (let task1 = task\<lparr>lastRunAt := Some (toISOString now)\<rparr>;
             task2 = task1\<lparr>nextRunAt := getNextRunTime tz now (cron task)\<rparr>
         in (task2,
             [AssignLastRunAt (task_id task) (toISOString now),
              AssignNextRunAt (task_id task) (getNextRunTime tz now (cron task))] @
             (case cb of
                None \<Rightarrow> []
              | Some f \<Rightarrow>
                  CallbackInvoked task2 #
                  (case f task2 of
                     Returns \<Rightarrow> []
                   | Throws \<Rightarrow> [CallbackErrorCaught (task_id task)]))))
      else (task, []))"

text \<open>
  \<open>tick\<close> visits the tasks in the order of the map. The clock is read once (the
  readings inside \<open>getNextRunTime\<close> are taken to be the same instant), and the
  callback is taken not to change the scheduler.
\<close>

definition tick :: "int \<Rightarrow> Date \<Rightarrow> scheduler \<Rightarrow> scheduler \<times> tick_event list" where
  "tick tz now s =
     (s\<lparr>schedules := map (\<lambda>(k, task). (k, fst (tickTask tz now (onFireCallback s) task))) (schedules s)\<rparr>,
      concat (map (\<lambda>(k, task). snd (tickTask tz now (onFireCallback s) task)) (schedules s)))"


section \<open>Values and messages (common/types/daemon.ts)\<close>

text \<open>
  The values that travel in messages. An object is the list of its own properties in
  insertion order; a property can be present with the value \<open>undefined\<close>.
\<close>

datatype json =
    JUndefined
  | JNull
  | JBool bool
  | JNum int
  | JStr string
  | JArr "json list"
  | JObj "(string \<times> json) list"

text \<open>A message is an object: \<open>JsonRpcRequest | JsonRpcResponse | JsonRpcNotification\<close>.\<close>

type_synonym JsonRpcMessage = "(string \<times> json) list"

definition hasKey :: "string \<Rightarrow> (string \<times> json) list \<Rightarrow> bool" where
  \<comment> \<open>\<open>key in object\<close>\<close>
  "hasKey k obj = (map_of obj k \<noteq> None)"

definition field :: "string \<Rightarrow> (string \<times> json) list \<Rightarrow> json" where
  \<comment> \<open>\<open>object.key\<close>\<close>
  "field k obj = (case map_of obj k of None \<Rightarrow> JUndefined | Some v \<Rightarrow> v)"

definition getProp :: "string \<Rightarrow> json \<Rightarrow> json" where
  \<comment> \<open>\<open>value.key\<close> on a value that is neither \<open>null\<close> nor \<open>undefined\<close>, for a key that
      is not a built-in property of strings or arrays\<close>
  "getProp k v = (case v of JObj obj \<Rightarrow> field k obj | _ \<Rightarrow> JUndefined)"

definition truthy :: "json \<Rightarrow> bool" where
  "truthy v = (v \<noteq> JUndefined \<and> v \<noteq> JNull \<and> v \<noteq> JBool False \<and> v \<noteq> JNum 0 \<and> v \<noteq> JStr [])"

definition nullish :: "json \<Rightarrow> bool" where
  "nullish v = (v = JUndefined \<or> v = JNull)"

definition joinWith :: "string \<Rightarrow> string list \<Rightarrow> string" where
  "joinWith sep xs = (case xs of [] \<Rightarrow> [] | y # ys \<Rightarrow> y @ concat (map (\<lambda>x. sep @ x) ys))"

text \<open>\<open>String(v)\<close>, as a template literal applies it.\<close>

fun toStr :: "json \<Rightarrow> string" where
  "toStr JUndefined = ''undefined''"
| "toStr JNull = ''null''"
| "toStr (JBool b) = (if b then ''true'' else ''false'')"
| "toStr (JNum n) = toStringRadix 10 n"
| "toStr (JStr s) = s"
| "toStr (JArr xs) = joinWith '','' (map (\<lambda>x. if nullish x then [] else toStr x) xs)"
| "toStr (JObj obj) = ''[object Object]''"

definition PARSE_ERROR :: int where "PARSE_ERROR = - 32700"
definition INVALID_REQUEST :: int where "INVALID_REQUEST = - 32600"
definition METHOD_NOT_FOUND :: int where "METHOD_NOT_FOUND = - 32601"
definition INVALID_PARAMS :: int where "INVALID_PARAMS = - 32602"
definition INTERNAL_ERROR :: int where "INTERNAL_ERROR = - 32603"
definition TASK_NOT_FOUND :: int where "TASK_NOT_FOUND = - 32000"
definition NO_PROVIDER :: int where "NO_PROVIDER = - 32001"
definition NOT_READY :: int where "NOT_READY = - 32002"

text \<open>
  What a server or a client does to its transport, in order: the calls of
  \<open>transport.send\<close> and \<open>transport.close\<close>.
\<close>

datatype transport_call = Send JsonRpcMessage | CloseTransport

section \<open>The server (daemon/server.ts)\<close>

text \<open>
  A value thrown by a handler (or the reason its promise rejects with): an \<open>Error\<close>
  with its message, or another value, given by the text \<open>String\<close> makes of it.
\<close>

datatype thrown = ErrorObject string | OtherValue string

datatype handler_outcome = Returned json | Threw thrown

text \<open>
  A handler gets the reading of the clock and the parameters, acts on the world \<open>'w\<close> of
  its collaborators, and returns a value or throws (a promise it returns is awaited:
  fulfilled is \<open>Returned\<close>, rejected is \<open>Threw\<close>).
\<close>

type_synonym 'w MethodHandler = "int \<Rightarrow> json \<Rightarrow> 'w \<Rightarrow> handler_outcome \<times> 'w"

record 'w DaemonServer =
  handlers :: "(string \<times> 'w MethodHandler) list"
  startTime :: int

definition registerMethod :: "string \<Rightarrow> 'w MethodHandler \<Rightarrow> 'w DaemonServer \<Rightarrow> 'w DaemonServer" where
  "registerMethod m h srv = srv\<lparr>handlers := AList.update m h (handlers srv)\<rparr>"

definition pingHandler :: "int \<Rightarrow> 'w MethodHandler" where
  "pingHandler start =
     (\<lambda>now params w. (Returned (JObj [(''status'', JStr ''ok''), (''uptime'', JNum (now - start))]), w))"

text \<open>The constructor, at clock reading \<open>now\<close>.\<close>

definition newDaemonServer :: "int \<Rightarrow> 'w DaemonServer" where
  "newDaemonServer now =
     registerMethod ''daemon.ping'' (pingHandler now) \<lparr>handlers = [], startTime = now\<rparr>"

definition notification :: "string \<Rightarrow> json \<Rightarrow> JsonRpcMessage" where
  "notification m params = [(''jsonrpc'', JStr ''2.0''), (''method'', JStr m), (''params'', params)]"

definition notify :: "string \<Rightarrow> json \<Rightarrow> transport_call list" where
  "notify m params = [Send (notification m params)]"

definition closeServer :: "'w DaemonServer \<Rightarrow> 'w DaemonServer \<times> transport_call list" where
  "closeServer srv = (srv\<lparr>handlers := []\<rparr>, [CloseTransport])"

definition resultResponse :: "json \<Rightarrow> json \<Rightarrow> JsonRpcMessage" where
  "resultResponse ident result = [(''jsonrpc'', JStr ''2.0''), (''id'', ident), (''result'', result)]"

definition errorResponse :: "json \<Rightarrow> int \<Rightarrow> string \<Rightarrow> JsonRpcMessage" where
  "errorResponse ident code message =
     [(''jsonrpc'', JStr ''2.0''), (''id'', ident),
      (''error'', JObj [(''code'', JNum code), (''message'', JStr message)])]"

definition sendResult :: "json \<Rightarrow> json \<Rightarrow> transport_call list" where
  "sendResult ident result = [Send (resultResponse ident result)]"

definition sendError :: "json \<Rightarrow> int \<Rightarrow> string \<Rightarrow> transport_call list" where
  "sendError ident code message = [Send (errorResponse ident code message)]"

definition thrownMessage :: "thrown \<Rightarrow> string" where
  \<comment> \<open>\<open>err instanceof Error ? err.message : String(err)\<close>\<close>
  "thrownMessage e = (case e of ErrorObject m \<Rightarrow> m | OtherValue s \<Rightarrow> s)"

definition lookupHandler :: "json \<Rightarrow> 'w DaemonServer \<Rightarrow> 'w MethodHandler option" where
  \<comment> \<open>\<open>this.handlers.get(request.method)\<close>: the keys of the map are strings\<close>
  "lookupHandler m srv = (case m of JStr name \<Rightarrow> map_of (handlers srv) name | _ \<Rightarrow> None)"

text \<open>
  \<open>handleMessage\<close> at clock reading \<open>now\<close>: the calls it makes on the transport and
  the world its handler leaves. Every path returns; what a handler throws is caught.
\<close>

definition handleMessage ::
  "int \<Rightarrow> JsonRpcMessage \<Rightarrow> 'w DaemonServer \<Rightarrow> 'w \<Rightarrow> transport_call list \<times> 'w" where
  "handleMessage now message srv w =
     (if \<not> hasKey ''id'' message \<or> \<not> hasKey ''method'' message then ([], w)
      else
        (case lookupHandler (field ''method'' message) srv of
           None \<Rightarrow>
             (sendError (field ''id'' message) METHOD_NOT_FOUND
                (''Method not found: '' @ toStr (field ''method'' message)), w)
         | Some handler \<Rightarrow>
             (case handler now (field ''params'' message) w of
                (Returned result, w') \<Rightarrow> (sendResult (field ''id'' message) result, w')
              | (Threw err, w') \<Rightarrow>
                  (sendError (field ''id'' message) INTERNAL_ERROR (thrownMessage err), w'))))"

section \<open>The handlers of the daemon subprocess (daemon/entry.ts)\<close>

text \<open>
  The storage collaborator: each operation takes its arguments, acts on the world and
  returns a value or throws.
\<close>

record 'w StorageAPI =
  getTask :: "json \<Rightarrow> 'w \<Rightarrow> handler_outcome \<times> 'w"
  getTasks :: "'w \<Rightarrow> handler_outcome \<times> 'w"
  saveTask :: "json \<Rightarrow> 'w \<Rightarrow> handler_outcome \<times> 'w"
  updateTaskStatus :: "json \<Rightarrow> json \<Rightarrow> json \<Rightarrow> 'w \<Rightarrow> handler_outcome \<times> 'w"
  updateTaskSummary :: "json \<Rightarrow> json \<Rightarrow> 'w \<Rightarrow> handler_outcome \<times> 'w"
  addTaskMessage :: "json \<Rightarrow> json \<Rightarrow> 'w \<Rightarrow> handler_outcome \<times> 'w"
  deleteTask :: "json \<Rightarrow> 'w \<Rightarrow> handler_outcome \<times> 'w"
  clearHistory :: "'w \<Rightarrow> handler_outcome \<times> 'w"
  getTodosForTask :: "json \<Rightarrow> 'w \<Rightarrow> handler_outcome \<times> 'w"

definition statement :: "handler_outcome \<times> 'w \<Rightarrow> handler_outcome \<times> 'w" where
  \<comment> \<open>a call as a statement: its value is dropped, the handler then returns \<open>undefined\<close>\<close>
  "statement r = (case r of (Returned v, w) \<Rightarrow> (Returned JUndefined, w) | (Threw e, w) \<Rightarrow> (Threw e, w))"

definition orNull :: "handler_outcome \<times> 'w \<Rightarrow> handler_outcome \<times> 'w" where
  \<comment> \<open>\<open>value ?? null\<close>\<close>
  "orNull r =
     (case r of (Returned v, w) \<Rightarrow> (Returned (if nullish v then JNull else v), w)
              | (Threw e, w) \<Rightarrow> (Threw e, w))"

definition registerHandlers :: "'w StorageAPI \<Rightarrow> 'w DaemonServer \<Rightarrow> 'w DaemonServer" where
  "registerHandlers storage server =
     (registerMethod ''storage.addTaskMessage''
        (\<lambda>now params w.
           if truthy params
           then statement (addTaskMessage storage (getProp ''taskId'' params) (getProp ''message'' params) w)
           else (Returned JUndefined, w))
     (registerMethod ''storage.updateTaskSummary''
        (\<lambda>now params w.
           if truthy params
           then statement (updateTaskSummary storage (getProp ''taskId'' params) (getProp ''summary'' params) w)
           else (Returned JUndefined, w))
     (registerMethod ''storage.updateTaskStatus''
        (\<lambda>now params w.
           if truthy params
           then statement (updateTaskStatus storage (getProp ''taskId'' params) (getProp ''status'' params)
                             (getProp ''completedAt'' params) w)
           else (Returned JUndefined, w))
     (registerMethod ''storage.saveTask''
        (\<lambda>now params w.
           if truthy params then statement (saveTask storage (getProp ''task'' params) w)
           else (Returned JUndefined, w))
     (registerMethod ''task.getTodos''
        (\<lambda>now params w.
           if \<not> truthy params then (Returned (JArr []), w)
           else getTodosForTask storage (getProp ''taskId'' params) w)
     (registerMethod ''task.clearHistory''
        (\<lambda>now params w. statement (clearHistory storage w))
     (registerMethod ''task.delete''
        (\<lambda>now params w.
           if truthy params then statement (deleteTask storage (getProp ''taskId'' params) w)
           else (Returned JUndefined, w))
     (registerMethod ''task.list''
        (\<lambda>now params w. getTasks storage w)
     (registerMethod ''task.get''
        (\<lambda>now params w.
           if \<not> truthy params then (Returned JNull, w)
           else orNull (getTask storage (getProp ''taskId'' params) w))
      server)))))))))"

text \<open>\<open>boot\<close>: the server of the subprocess, constructed at clock reading \<open>now\<close>.\<close>

definition bootServer :: "int \<Rightarrow> 'w StorageAPI \<Rightarrow> 'w DaemonServer" where
  "bootServer now storage = registerHandlers storage (newDaemonServer now)"

section \<open>The client (daemon/client.ts)\<close>

text \<open>
  How a promise is settled: resolved with a value, or rejected with an \<open>Error\<close> that
  has a message and a \<open>code\<close> property (\<open>JUndefined\<close> when the error has none).
\<close>

datatype settlement = Resolved json | Rejected string json

text \<open>
  The promise and the timer that a call creates are named by numbers handed out in the
  order of creation. A pending request holds the resolver and rejecter of its promise
  and its timer.
\<close>

record PendingRequest =
  promise :: nat
  timer :: nat

text \<open>
  The client's fields, and next to them what the runtime holds for it: the armed timers
  (each with the id, the method name and the promise its callback closes over) and the
  list of all calls of a resolver or rejecter, in order. \<open>pending\<close> and
  \<open>notificationHandlers\<close> are the \<open>Map\<close>s in insertion order; a notification handler is
  named by a number, and \<open>delivered\<close> lists the calls of notification handlers.
\<close>

record DaemonClient =
  timeout :: int
  nextId :: int
  pending :: "(json \<times> PendingRequest) list"
  notificationHandlers :: "(string \<times> nat list) list"
  created :: nat
  timers :: "(nat \<times> json \<times> string \<times> nat) list"
  settled :: "(nat \<times> settlement) list"
  delivered :: "(nat \<times> json) list"

definition DEFAULT_TIMEOUT_MS :: int where
  "DEFAULT_TIMEOUT_MS = 30000"

definition newDaemonClient :: "int option \<Rightarrow> DaemonClient" where
  "newDaemonClient opt =
     \<lparr>timeout = (case opt of None \<Rightarrow> DEFAULT_TIMEOUT_MS | Some t \<Rightarrow> t),
      nextId = 1, pending = [], notificationHandlers = [],
      created = 0, timers = [], settled = [], delivered = []\<rparr>"

definition increment :: "int \<Rightarrow> int" where
  \<comment> \<open>\<open>n++\<close> on a number that holds an integer: exact below \<open>2 ^ 53\<close>, where it stops\<close>
  "increment n = (if n < 2 ^ 53 then n + 1 else n)"

definition request :: "int \<Rightarrow> string \<Rightarrow> json \<Rightarrow> JsonRpcMessage" where
  "request ident m params =
     [(''jsonrpc'', JStr ''2.0''), (''id'', JNum ident), (''method'', JStr m), (''params'', params)]"

text \<open>
  \<open>call\<close>: returns the client, the number of the promise it returns, and the calls on
  the transport.
\<close>

definition call :: "string \<Rightarrow> json \<Rightarrow> DaemonClient \<Rightarrow> DaemonClient \<times> nat \<times> transport_call list" where
  "call m params c =
     (let ident = nextId c;
          h = created c
      in (c\<lparr>nextId := increment ident,
            created := Suc h,
            timers := AList.update h (JNum ident, m, h) (timers c),
            pending := AList.update (JNum ident) \<lparr>promise = h, timer = h\<rparr> (pending c)\<rparr>,
          h,
          [Send (request ident m params)]))"

definition clearTimeout :: "nat \<Rightarrow> DaemonClient \<Rightarrow> DaemonClient" where
  "clearTimeout t c = c\<lparr>timers := AList.delete t (timers c)\<rparr>"

definition settle :: "nat \<Rightarrow> settlement \<Rightarrow> DaemonClient \<Rightarrow> DaemonClient" where
  \<comment> \<open>a call of the resolver or the rejecter of promise \<open>h\<close>\<close>
  "settle h r c = c\<lparr>settled := settled c @ [(h, r)]\<rparr>"

text \<open>
  Timer \<open>t\<close> expires. The runtime runs the callback of a timer once, and only if the
  timer is still armed; the timer is then no longer armed. The callback deletes the
  entry of its id from the table and rejects its promise.
\<close>

definition timerFires :: "nat \<Rightarrow> DaemonClient \<Rightarrow> DaemonClient" where
  "timerFires t c =
     (case map_of (timers c) t of
        None \<Rightarrow> c
      | Some (ident, m, h) \<Rightarrow>
          settle h
            (Rejected (''RPC timeout: '' @ m @ '' ('' @ toStringRadix 10 (timeout c) @ ''ms)'') JUndefined)
            (c\<lparr>timers := AList.delete t (timers c),
               pending := AList.delete ident (pending c)\<rparr>))"

definition onNotification :: "string \<Rightarrow> nat \<Rightarrow> DaemonClient \<Rightarrow> DaemonClient" where
  "onNotification m handler c =
     c\<lparr>notificationHandlers :=
         AList.update m
           ((case map_of (notificationHandlers c) m of None \<Rightarrow> [] | Some hs \<Rightarrow> hs) @ [handler])
           (notificationHandlers c)\<rparr>"

definition errorMessage :: "json \<Rightarrow> string" where
  \<comment> \<open>the message of \<open>new Error(v)\<close>\<close>
  "errorMessage v = (if v = JUndefined then [] else toStr v)"

definition closeEntry :: "json \<times> PendingRequest \<Rightarrow> DaemonClient \<Rightarrow> DaemonClient" where
  \<comment> \<open>the body of the loop of \<open>close\<close>\<close>
  "closeEntry e c =
     (let c1 = clearTimeout (timer (snd e)) c;
          c2 = settle (promise (snd e)) (Rejected ''Client closed'' JUndefined) c1
      in c2\<lparr>pending := AList.delete (fst e) (pending c2)\<rparr>)"

definition close :: "DaemonClient \<Rightarrow> DaemonClient \<times> transport_call list" where
  "close c = ((fold closeEntry (pending c) c)\<lparr>notificationHandlers := []\<rparr>, [CloseTransport])"

definition lookupNotificationHandlers :: "json \<Rightarrow> DaemonClient \<Rightarrow> nat list" where
  "lookupNotificationHandlers m c =
     (case m of
        JStr name \<Rightarrow> (case map_of (notificationHandlers c) name of None \<Rightarrow> [] | Some hs \<Rightarrow> hs)
      | _ \<Rightarrow> [])"

definition clientHandleMessage :: "JsonRpcMessage \<Rightarrow> DaemonClient \<Rightarrow> DaemonClient" where
  "clientHandleMessage message c =
     (if hasKey ''id'' message \<and> \<not> hasKey ''method'' message then
        (case map_of (pending c) (field ''id'' message) of
           None \<Rightarrow> c
         | Some p \<Rightarrow>
             (let c1 = c\<lparr>pending := AList.delete (field ''id'' message) (pending c)\<rparr>;
                  c2 = clearTimeout (timer p) c1
              in if truthy (field ''error'' message) then
                   settle (promise p)
                     (Rejected (errorMessage (getProp ''message'' (field ''error'' message)))
                        (if nullish (getProp ''code'' (field ''error'' message)) then JNum INTERNAL_ERROR
                         else getProp ''code'' (field ''error'' message)))
                     c2
                 else settle (promise p) (Resolved (field ''result'' message)) c2))
      else if hasKey ''method'' message \<and> \<not> hasKey ''id'' message then
        c\<lparr>delivered := delivered c @
             map (\<lambda>h. (h, field ''params'' message))
               (lookupNotificationHandlers (field ''method'' message) c)\<rparr>
      else c)"

text \<open>What can happen to a client, and a run of such events.\<close>

datatype client_event =
    Call string json
  | Receive JsonRpcMessage
  | TimerFires nat
  | OnNotification string nat
  | Close

fun clientStep :: "client_event \<Rightarrow> DaemonClient \<Rightarrow> DaemonClient" where
  "clientStep (Call m params) c = fst (call m params c)"
| "clientStep (Receive message) c = clientHandleMessage message c"
| "clientStep (TimerFires t) c = timerFires t c"
| "clientStep (OnNotification m h) c = onNotification m h c"
| "clientStep Close c = fst (close c)"

definition clientRun :: "client_event list \<Rightarrow> DaemonClient \<Rightarrow> DaemonClient" where
  "clientRun evs c = fold clientStep evs c"

text \<open>
  Reading the state of a client: the calls of a resolver or rejecter of promise \<open>h\<close> so
  far, and the id that the call which created promise \<open>h\<close> was given (promises are
  numbered from 0 and ids from 1, one of each per call).
\<close>

definition settlementsOf :: "nat \<Rightarrow> DaemonClient \<Rightarrow> settlement list" where
  "settlementsOf h c = map snd (filter (\<lambda>e. fst e = h) (settled c))"

definition idOf :: "nat \<Rightarrow> json" where
  "idOf h = JNum (int h + 1)"

text \<open>
  What the three ways of settling a pending call have in common: the entry leaves the
  table, the timer is no longer armed, and the promise is settled.
\<close>

definition finish :: "nat \<Rightarrow> settlement \<Rightarrow> DaemonClient \<Rightarrow> DaemonClient" where
  "finish h r c =
     c\<lparr>pending := AList.delete (idOf h) (pending c),
       timers := AList.delete h (timers c),
       settled := settled c @ [(h, r)]\<rparr>"

text \<open>How the response \<open>message\<close> settles the promise of its call.\<close>

definition responseSettlement :: "JsonRpcMessage \<Rightarrow> settlement" where
  "responseSettlement message =
     (if truthy (field ''error'' message) then
        Rejected (errorMessage (getProp ''message'' (field ''error'' message)))
          (if nullish (getProp ''code'' (field ''error'' message)) then JNum INTERNAL_ERROR
           else getProp ''code'' (field ''error'' message))
      else Resolved (field ''result'' message))"

text \<open>
  The invariant of a client that has issued fewer than \<open>2 ^ 53\<close> calls: the table has
  one entry per key; an entry belongs to a call that was issued, under that call's id,
  and holds that call's promise and timer; the armed timers are those of the pending
  calls; and a promise has been settled once if its call is no longer pending, and not
  at all if it is.
\<close>

definition clientInv :: "DaemonClient \<Rightarrow> bool" where
  "clientInv c =
     (nextId c = int (created c) + 1 \<and>
      distinct (map fst (pending c)) \<and>
      (\<forall>k p. map_of (pending c) k = Some p \<longrightarrow>
         promise p < created c \<and> timer p = promise p \<and> k = idOf (promise p)) \<and>
      (\<forall>t k m h. map_of (timers c) t = Some (k, m, h) \<longrightarrow> h = t \<and> k = idOf t) \<and>
      (\<forall>h. (map_of (timers c) h \<noteq> None) = (map_of (pending c) (idOf h) \<noteq> None)) \<and>
      (\<forall>h. length (settlementsOf h c) =
         (if h < created c \<and> map_of (pending c) (idOf h) = None then 1 else 0)))"

section \<open>The transports (daemon/transport.ts, daemon/ipc-transport.ts)\<close>




















section \<open>Values used in the examples\<close>

definition idleStorage :: "unit StorageAPI" where
  \<comment> \<open>a storage collaborator whose operations do nothing and return \<open>undefined\<close>\<close>
  "idleStorage =
     \<lparr>getTask = (\<lambda>a w. (Returned JUndefined, w)),
      getTasks = (\<lambda>w. (Returned (JArr []), w)),
      saveTask = (\<lambda>a w. (Returned JUndefined, w)),
      updateTaskStatus = (\<lambda>a b c w. (Returned JUndefined, w)),
      updateTaskSummary = (\<lambda>a b w. (Returned JUndefined, w)),
      addTaskMessage = (\<lambda>a b w. (Returned JUndefined, w)),
      deleteTask = (\<lambda>a w. (Returned JUndefined, w)),
      clearHistory = (\<lambda>w. (Returned JUndefined, w)),
      getTodosForTask = (\<lambda>a w. (Returned (JArr []), w))\<rparr>"

definition failingHandler :: "unit MethodHandler" where
  \<comment> \<open>a handler that throws \<open>new Error('disk full')\<close>\<close>
  "failingHandler = (\<lambda>now params w. (Threw (ErrorObject ''disk full''), w))"

definition methodNames :: "string list" where
  \<comment> \<open>the keys of \<open>DaemonMethodMap\<close>\<close>
  "methodNames =
     [''task.start'', ''task.cancel'', ''task.interrupt'', ''task.sendResponse'', ''task.list'',
      ''task.get'', ''task.delete'', ''task.clearHistory'', ''task.getTodos'',
      ''task.getActiveIds'', ''task.getActiveCount'', ''task.hasActive'', ''task.isQueued'',
      ''task.cancelQueued'', ''session.resume'', ''permission.respond'', ''storage.saveTask'',
      ''storage.updateTaskStatus'', ''storage.updateTaskSummary'', ''storage.addTaskMessage'',
      ''task.schedule'', ''task.listScheduled'', ''task.cancelScheduled'', ''daemon.ping'']"

definition servedByChild :: "string list" where
  \<comment> \<open>the methods that the subprocess registers: the constructor's and those of
      \<open>registerHandlers\<close>, in the order of registration\<close>
  "servedByChild =
     [''daemon.ping'', ''task.get'', ''task.list'', ''task.delete'', ''task.clearHistory'',
      ''task.getTodos'', ''storage.saveTask'', ''storage.updateTaskStatus'',
      ''storage.updateTaskSummary'', ''storage.addTaskMessage'']"

definition sentMessages :: "transport_call list \<Rightarrow> JsonRpcMessage list" where
  \<comment> \<open>the messages handed to \<open>transport.send\<close>\<close>
  "sentMessages cs = concat (map (\<lambda>c. case c of Send message \<Rightarrow> [message] | CloseTransport \<Rightarrow> []) cs)"

definition envelopeKeys :: "string list" where
  "envelopeKeys = [''jsonrpc'', ''id'', ''method'', ''params'', ''result'', ''error'']"

definition carriesJsonrpc :: "JsonRpcMessage \<Rightarrow> bool" where
  \<comment> \<open>the marker is the property \<open>jsonrpc\<close> with value \<open>2.0\<close>; there is no property
      \<open>version\<close>, and no property outside the envelope's six\<close>
  "carriesJsonrpc message =
     (field ''jsonrpc'' message = JStr ''2.0'' \<and> \<not> hasKey ''version'' message \<and>
      list_all (\<lambda>k. k \<in> set envelopeKeys) (map fst message))"

definition twoCalls :: "client_event list" where
  \<comment> \<open>two calls on a new client, and the response to the first\<close>
  "twoCalls =
     [Call ''daemon.ping'' JUndefined, Call ''task.list'' JUndefined,
      Receive (resultResponse (JNum 1) (JObj [(''status'', JStr ''ok''), (''uptime'', JNum 5)]))]"

section \<open>The documented cron syntax\<close>










section \<open>Properties of the calendar\<close>










section \<open>Properties of the scheduler\<close>

lemma matchesCron_five_fields:
  "matchesCron tz expr date \<Longrightarrow> length (split_ws (trim expr)) = 5"
  by (auto simp: matchesCron_def split: list.splits)

lemma scanMinutes_no_match:
  "(\<And>k. k < n \<Longrightarrow> \<not> matchesCron tz expr (check + int k * msPerMinute)) \<Longrightarrow>
   scanMinutes tz expr n check = None"
proof (induction n arbitrary: check)
  case 0
  show ?case by simp
next
  case (Suc n)
  have "\<not> matchesCron tz expr check"
    using Suc.prems [of 0] by simp
  moreover have "scanMinutes tz expr n (check + msPerMinute) = None"
  proof (rule Suc.IH)
    fix k assume "k < n"
    then show "\<not> matchesCron tz expr (check + msPerMinute + int k * msPerMinute)"
      using Suc.prems [of "Suc k"] by (simp add: algebra_simps)
  qed
  ultimately show ?case by simp
qed


lemma tickTask_invoked:
  "CallbackInvoked t \<in> set (snd (tickTask tz now cb task)) \<Longrightarrow>
   matchesCron tz (cron task) now \<and> enabled task \<and> cron t = cron task"
  by (auto simp: tickTask_def Let_def split: if_splits option.splits callback_result.splits)

lemma tick_invoked:
  "CallbackInvoked t \<in> set (snd (tick tz now s)) \<Longrightarrow> matchesCron tz (cron t) now"
  by (auto simp: tick_def dest!: tickTask_invoked)

text \<open>
  C10. A cron string that does not trim and split into exactly five fields matches no
  timestamp (\<open>matchesCron\<close> returns false, it raises nothing), so a task added with
  it has no \<open>nextRunAt\<close>, the loop body of \<open>tick\<close> leaves such a task alone, and no
  tick calls the fire callback for a task with such an expression.
\<close>

theorem malformed_cron_never_fires:
  assumes "length (split_ws (trim expr)) \<noteq> 5"
  shows "\<not> matchesCron tz expr date \<and>
         getNextRunTime tz now expr = None \<and>
         nextRunAt (fst (addScheduledTask tz now suffix expr p s)) = None \<and>
         (cron task = expr \<longrightarrow> tickTask tz now cb task = (task, [])) \<and>
         (cron task = expr \<longrightarrow> CallbackInvoked task \<notin> set (snd (tick tz now s')))"
proof -
  have never: "\<not> matchesCron tz expr date" for tz date
    using assms matchesCron_five_fields by blast
  have none: "getNextRunTime tz now expr = None" for tz now
    unfolding getNextRunTime_def by (rule scanMinutes_no_match) (rule never)
  have "nextRunAt (fst (addScheduledTask tz now suffix expr p s)) = None"
    by (simp add: addScheduledTask_def Let_def none)
  moreover have "cron task = expr \<longrightarrow> tickTask tz now cb task = (task, [])"
    using never by (simp add: tickTask_def)
  moreover have "cron task = expr \<longrightarrow> CallbackInvoked task \<notin> set (snd (tick tz now s'))"
    using never tick_invoked by blast
  ultimately show ?thesis
    using never none by blast
qed

theorem malformed_cron_never_fires_witness:
  "length (split_ws (trim ''0 9 * *'')) \<noteq> 5 \<and>
   \<not> matchesCron 0 ''0 9 * *'' 1704186000000 \<and>
   getNextRunTime 0 1704182400000 ''0 9 * *'' = None \<and>
   length (split_ws (trim [])) \<noteq> 5 \<and>
   \<not> matchesCron 0 [] 1704186000000 \<and>
   length (split_ws (trim ''0 9 * * 1-5 2024'')) \<noteq> 5 \<and>
   \<not> matchesCron 0 ''0 9 * * 1-5 2024'' 1704186000000"
proof -
  have a: "length (split_ws (trim ''0 9 * *'')) \<noteq> 5"
    by (simp add: trim_def is_space_def)
  have b: "length (split_ws (trim [])) \<noteq> 5"
    by (simp add: trim_def is_space_def)
  have c: "length (split_ws (trim ''0 9 * * 1-5 2024'')) \<noteq> 5"
    by (simp add: trim_def is_space_def)
  show ?thesis
    using a b c
      malformed_cron_never_fires [OF a, where tz = 0 and date = 1704186000000 and now = 1704182400000]
      malformed_cron_never_fires [OF b, where tz = 0 and date = 1704186000000]
      malformed_cron_never_fires [OF c, where tz = 0 and date = 1704186000000]
    by blast
qed






section \<open>Properties of the server\<close>

lemma handleMessage_not_found:
  "hasKey ''id'' message \<Longrightarrow> hasKey ''method'' message \<Longrightarrow>
   lookupHandler (field ''method'' message) srv = None \<Longrightarrow>
   handleMessage now message srv w =
     ([Send (errorResponse (field ''id'' message) METHOD_NOT_FOUND
         (''Method not found: '' @ toStr (field ''method'' message)))], w)"
  by (simp add: handleMessage_def sendError_def)

lemma handleMessage_threw:
  "hasKey ''id'' message \<Longrightarrow> hasKey ''method'' message \<Longrightarrow>
   lookupHandler (field ''method'' message) srv = Some h \<Longrightarrow>
   h now (field ''params'' message) w = (Threw e, w') \<Longrightarrow>
   handleMessage now message srv w =
     ([Send (errorResponse (field ''id'' message) INTERNAL_ERROR (thrownMessage e))], w')"
  by (simp add: handleMessage_def sendError_def)

lemma handleMessage_returned:
  "hasKey ''id'' message \<Longrightarrow> hasKey ''method'' message \<Longrightarrow>
   lookupHandler (field ''method'' message) srv = Some h \<Longrightarrow>
   h now (field ''params'' message) w = (Returned r, w') \<Longrightarrow>
   handleMessage now message srv w = ([Send (resultResponse (field ''id'' message) r)], w')"
  by (simp add: handleMessage_def sendResult_def)

lemma errorResponse_fields:
  "getProp ''code'' (field ''error'' (errorResponse i c m)) = JNum c"
  "getProp ''message'' (field ''error'' (errorResponse i c m)) = JStr m"
  "field ''id'' (errorResponse i c m) = i"
  "field ''jsonrpc'' (errorResponse i c m) = JStr ''2.0''"
  "map fst (errorResponse i c m) = [''jsonrpc'', ''id'', ''error'']"
  by (simp_all add: errorResponse_def field_def getProp_def)

lemma resultResponse_fields:
  "field ''id'' (resultResponse i r) = i"
  "field ''result'' (resultResponse i r) = r"
  "field ''jsonrpc'' (resultResponse i r) = JStr ''2.0''"
  "map fst (resultResponse i r) = [''jsonrpc'', ''id'', ''result'']"
  by (simp_all add: resultResponse_def field_def)

lemma request_fields:
  "hasKey ''id'' (request i m p)"
  "hasKey ''method'' (request i m p)"
  "field ''id'' (request i m p) = JNum i"
  "field ''method'' (request i m p) = JStr m"
  "field ''params'' (request i m p) = p"
  "field ''jsonrpc'' (request i m p) = JStr ''2.0''"
  "map fst (request i m p) = [''jsonrpc'', ''id'', ''method'', ''params'']"
  by (simp_all add: request_def field_def hasKey_def)

lemma handleMessage_answers:
  assumes "hasKey ''id'' message" and "hasKey ''method'' message"
  shows "\<exists>resp. fst (handleMessage now message srv w) = [Send resp] \<and>
           field ''id'' resp = field ''id'' message"
proof (cases "lookupHandler (field ''method'' message) srv")
  case None
  then show ?thesis
    using handleMessage_not_found [OF assms None, of now w] by (simp add: errorResponse_fields)
next
  case (Some h)
  obtain r w' where hr: "h now (field ''params'' message) w = (r, w')"
    by (cases "h now (field ''params'' message) w")
  show ?thesis
  proof (cases r)
    case (Returned v)
    then show ?thesis
      using handleMessage_returned [OF assms Some, of now w v w'] hr
      by (simp add: resultResponse_fields)
  next
    case (Threw e)
    then show ?thesis
      using handleMessage_threw [OF assms Some, of now w e w'] hr
      by (simp add: errorResponse_fields)
  qed
qed

text \<open>
  C2. For a request (a message with an \<open>id\<close> and a \<open>method\<close>): when no handler is
  registered for its method, the server sends one response, with the request's id and
  \<open>error.code = -32601\<close>; when the registered handler throws (or its promise rejects),
  the server sends one response with the request's id, \<open>error.code = -32603\<close> and the
  error's message as \<open>error.message\<close>. In every case \<open>handleMessage\<close> returns, having
  sent exactly one response: a handler's fault does not escape it.
\<close>

theorem server_error_responses:
  assumes "hasKey ''id'' message" and "hasKey ''method'' message"
  shows "METHOD_NOT_FOUND = - 32601 \<and> INTERNAL_ERROR = - 32603 \<and>
         (lookupHandler (field ''method'' message) srv = None \<longrightarrow>
            handleMessage now message srv w =
              ([Send (errorResponse (field ''id'' message) METHOD_NOT_FOUND
                        (''Method not found: '' @ toStr (field ''method'' message)))], w)) \<and>
         (\<forall>h e w'. lookupHandler (field ''method'' message) srv = Some h \<and>
                    h now (field ''params'' message) w = (Threw e, w') \<longrightarrow>
            handleMessage now message srv w =
              ([Send (errorResponse (field ''id'' message) INTERNAL_ERROR (thrownMessage e))], w')) \<and>
         (\<forall>i c m. getProp ''code'' (field ''error'' (errorResponse i c m)) = JNum c \<and>
                  getProp ''message'' (field ''error'' (errorResponse i c m)) = JStr m \<and>
                  field ''id'' (errorResponse i c m) = i) \<and>
         (\<exists>resp. fst (handleMessage now message srv w) = [Send resp] \<and>
            field ''id'' resp = field ''id'' message)"
proof -
  have "lookupHandler (field ''method'' message) srv = None \<longrightarrow>
      handleMessage now message srv w =
        ([Send (errorResponse (field ''id'' message) METHOD_NOT_FOUND
                  (''Method not found: '' @ toStr (field ''method'' message)))], w)"
    using handleMessage_not_found [OF assms, of srv now w] by blast
  moreover have "\<forall>h e w'. lookupHandler (field ''method'' message) srv = Some h \<and>
      h now (field ''params'' message) w = (Threw e, w') \<longrightarrow>
      handleMessage now message srv w =
        ([Send (errorResponse (field ''id'' message) INTERNAL_ERROR (thrownMessage e))], w')"
    using handleMessage_threw [OF assms, of srv _ now w] by blast
  moreover have "\<forall>i c m. getProp ''code'' (field ''error'' (errorResponse i c m)) = JNum c \<and>
      getProp ''message'' (field ''error'' (errorResponse i c m)) = JStr m \<and>
      field ''id'' (errorResponse i c m) = i"
    by (simp add: errorResponse_fields)
  moreover have "METHOD_NOT_FOUND = - 32601" "INTERNAL_ERROR = - 32603"
    by (simp_all add: METHOD_NOT_FOUND_def INTERNAL_ERROR_def)
  ultimately show ?thesis
    using handleMessage_answers [OF assms, of now srv w] by blast
qed

text \<open>
  The scenario of the specification: \<open>foo.bar\<close> is not registered on a new server; and
  a handler that throws \<open>new Error('disk full')\<close>.
\<close>

theorem server_error_responses_witness:
  "hasKey ''id'' (request 1 ''foo.bar'' JUndefined) \<and>
   hasKey ''method'' (request 1 ''foo.bar'' JUndefined) \<and>
   lookupHandler (field ''method'' (request 1 ''foo.bar'' JUndefined)) (newDaemonServer 0) = None \<and>
   handleMessage 5 (request 1 ''foo.bar'' JUndefined) (newDaemonServer 0) () =
     ([Send [(''jsonrpc'', JStr ''2.0''), (''id'', JNum 1),
             (''error'', JObj [(''code'', JNum (- 32601)),
                               (''message'', JStr ''Method not found: foo.bar'')])]], ()) \<and>
   handleMessage 5 (request 2 ''boom'' JUndefined)
       (registerMethod ''boom'' failingHandler (newDaemonServer 0)) () =
     ([Send [(''jsonrpc'', JStr ''2.0''), (''id'', JNum 2),
             (''error'', JObj [(''code'', JNum (- 32603)), (''message'', JStr ''disk full'')])]], ())"
proof -
  have k: "hasKey ''id'' (request i m JUndefined)" "hasKey ''method'' (request i m JUndefined)" for i m
    by (simp_all add: request_fields)
  have none: "lookupHandler (field ''method'' (request 1 ''foo.bar'' JUndefined)) (newDaemonServer 0) = None"
    by (simp add: request_fields lookupHandler_def newDaemonServer_def registerMethod_def)
  have some: "lookupHandler (field ''method'' (request 2 ''boom'' JUndefined))
      (registerMethod ''boom'' failingHandler (newDaemonServer 0)) = Some failingHandler"
    by (simp add: request_fields lookupHandler_def newDaemonServer_def registerMethod_def)
  have thr: "failingHandler 5 (field ''params'' (request 2 ''boom'' JUndefined)) () =
      (Threw (ErrorObject ''disk full''), ())"
    by (simp add: failingHandler_def)
  note a = server_error_responses [OF k, of 1 "''foo.bar''" "newDaemonServer 0" 5 "()"]
  note b = server_error_responses [OF k, of 2 "''boom''"
        "registerMethod ''boom'' failingHandler (newDaemonServer 0)" 5 "()"]
  from a none have
    "handleMessage 5 (request 1 ''foo.bar'' JUndefined) (newDaemonServer 0) () =
       ([Send (errorResponse (field ''id'' (request 1 ''foo.bar'' JUndefined)) METHOD_NOT_FOUND
          (''Method not found: '' @ toStr (field ''method'' (request 1 ''foo.bar'' JUndefined))))], ())"
    by blast
  then have 1: "handleMessage 5 (request 1 ''foo.bar'' JUndefined) (newDaemonServer 0) () =
      ([Send [(''jsonrpc'', JStr ''2.0''), (''id'', JNum 1),
              (''error'', JObj [(''code'', JNum (- 32601)),
                                (''message'', JStr ''Method not found: foo.bar'')])]], ())"
    by (simp add: errorResponse_def request_fields METHOD_NOT_FOUND_def)
  from b some thr have
    "handleMessage 5 (request 2 ''boom'' JUndefined)
       (registerMethod ''boom'' failingHandler (newDaemonServer 0)) () =
     ([Send (errorResponse (field ''id'' (request 2 ''boom'' JUndefined)) INTERNAL_ERROR
         (thrownMessage (ErrorObject ''disk full'')))], ())"
    by blast
  then have 2: "handleMessage 5 (request 2 ''boom'' JUndefined)
       (registerMethod ''boom'' failingHandler (newDaemonServer 0)) () =
     ([Send [(''jsonrpc'', JStr ''2.0''), (''id'', JNum 2),
             (''error'', JObj [(''code'', JNum (- 32603)), (''message'', JStr ''disk full'')])]], ())"
    by (simp add: errorResponse_def request_fields thrownMessage_def INTERNAL_ERROR_def)
  show ?thesis
    using k [of 1 "''foo.bar''"] none 1 2 by blast
qed

lemma bootServer_names: "map fst (handlers (bootServer now storage)) = servedByChild"
  by (simp add: bootServer_def registerHandlers_def newDaemonServer_def registerMethod_def
      servedByChild_def)

lemma lookupHandler_unregistered:
  "m \<notin> set (map fst (handlers srv)) \<Longrightarrow> lookupHandler (JStr m) srv = None"
  by (simp add: lookupHandler_def map_of_eq_None_iff)

lemma unserved_methods:
  "[m \<leftarrow> methodNames. m \<notin> set servedByChild] =
     [''task.start'', ''task.cancel'', ''task.interrupt'', ''task.sendResponse'',
      ''task.getActiveIds'', ''task.getActiveCount'', ''task.hasActive'', ''task.isQueued'',
      ''task.cancelQueued'', ''session.resume'', ''permission.respond'', ''task.schedule'',
      ''task.listScheduled'', ''task.cancelScheduled'']"
  by (simp add: methodNames_def servedByChild_def)

text \<open>
  C7. The server of the daemon subprocess has exactly ten methods registered: the
  built-in \<open>daemon.ping\<close>, the task queries \<open>task.get\<close>, \<open>task.list\<close>, \<open>task.delete\<close>,
  \<open>task.clearHistory\<close>, \<open>task.getTodos\<close>, and the four \<open>storage.*\<close> methods. A request
  for any other method gets one response with \<open>error.code = METHOD_NOT_FOUND\<close>; the
  methods of the method map that are not served are the task-lifecycle, session,
  permission and scheduling methods listed.
\<close>

theorem child_daemon_serves_storage_only:
  "map fst (handlers (bootServer now storage)) = servedByChild \<and>
   (\<forall>m. m \<notin> set servedByChild \<and> hasKey ''id'' message \<and> field ''method'' message = JStr m \<longrightarrow>
      handleMessage now' message (bootServer now storage) w =
        ([Send (errorResponse (field ''id'' message) METHOD_NOT_FOUND
                  (''Method not found: '' @ m))], w)) \<and>
   [m \<leftarrow> methodNames. m \<notin> set servedByChild] =
     [''task.start'', ''task.cancel'', ''task.interrupt'', ''task.sendResponse'',
      ''task.getActiveIds'', ''task.getActiveCount'', ''task.hasActive'', ''task.isQueued'',
      ''task.cancelQueued'', ''session.resume'', ''permission.respond'', ''task.schedule'',
      ''task.listScheduled'', ''task.cancelScheduled'']"
proof -
  have "handleMessage now' message (bootServer now storage) w =
        ([Send (errorResponse (field ''id'' message) METHOD_NOT_FOUND
                  (''Method not found: '' @ m))], w)"
    if m: "m \<notin> set servedByChild" and i: "hasKey ''id'' message"
      and f: "field ''method'' message = JStr m" for m
  proof -
    have k: "hasKey ''method'' message"
      using f by (auto simp: field_def hasKey_def split: option.splits)
    have "lookupHandler (field ''method'' message) (bootServer now storage) = None"
      unfolding f by (rule lookupHandler_unregistered) (simp add: bootServer_names m)
    from handleMessage_not_found [OF i k this, of now' w] show ?thesis
      by (simp add: f)
  qed
  then show ?thesis
    using bootServer_names [of now storage] unserved_methods by blast
qed

theorem child_daemon_serves_storage_only_witness:
  "''task.start'' \<notin> set servedByChild \<and>
   hasKey ''id'' (request 7 ''task.start'' (JObj [(''taskId'', JStr ''t1'')])) \<and>
   handleMessage 5 (request 7 ''task.start'' (JObj [(''taskId'', JStr ''t1'')]))
       (bootServer 0 idleStorage) () =
     ([Send [(''jsonrpc'', JStr ''2.0''), (''id'', JNum 7),
             (''error'', JObj [(''code'', JNum (- 32601)),
                               (''message'', JStr ''Method not found: task.start'')])]], ())"
proof -
  have a: "''task.start'' \<notin> set servedByChild"
    by (simp add: servedByChild_def)
  have b: "hasKey ''id'' (request 7 ''task.start'' (JObj [(''taskId'', JStr ''t1'')]))"
    and c: "field ''method'' (request 7 ''task.start'' (JObj [(''taskId'', JStr ''t1'')])) =
      JStr ''task.start''"
    by (simp_all add: request_fields)
  from child_daemon_serves_storage_only
    [of 0 idleStorage "request 7 ''task.start'' (JObj [(''taskId'', JStr ''t1'')])" 5 "()"] a b c
  have "handleMessage 5 (request 7 ''task.start'' (JObj [(''taskId'', JStr ''t1'')]))
       (bootServer 0 idleStorage) () =
     ([Send (errorResponse (field ''id'' (request 7 ''task.start'' (JObj [(''taskId'', JStr ''t1'')])))
        METHOD_NOT_FOUND (''Method not found: '' @ ''task.start''))], ())"
    by blast
  then show ?thesis
    using a b by (simp add: errorResponse_def request_fields METHOD_NOT_FOUND_def)
qed

section \<open>Properties of the wire format\<close>

lemma carriesJsonrpc_request: "carriesJsonrpc (request i m p)"
  by (simp add: carriesJsonrpc_def request_def field_def hasKey_def envelopeKeys_def)

lemma carriesJsonrpc_notification: "carriesJsonrpc (notification m p)"
  by (simp add: carriesJsonrpc_def notification_def field_def hasKey_def envelopeKeys_def)

lemma carriesJsonrpc_resultResponse: "carriesJsonrpc (resultResponse i r)"
  by (simp add: carriesJsonrpc_def resultResponse_def field_def hasKey_def envelopeKeys_def)

lemma carriesJsonrpc_errorResponse: "carriesJsonrpc (errorResponse i c m)"
  by (simp add: carriesJsonrpc_def errorResponse_def field_def hasKey_def envelopeKeys_def)

lemma handleMessage_carriesJsonrpc:
  "list_all carriesJsonrpc (sentMessages (fst (handleMessage now message srv w)))"
  by (auto simp: handleMessage_def sentMessages_def sendError_def sendResult_def
      carriesJsonrpc_resultResponse carriesJsonrpc_errorResponse
      split: option.splits prod.splits handler_outcome.splits)

text \<open>
  C9, as the code has it. The request that \<open>call\<close> sends, the notification that
  \<open>notify\<close> sends and every response that the server's \<open>handleMessage\<close> sends carry
  the protocol marker as the property \<open>jsonrpc\<close> with value \<open>2.0\<close>, have no property
  \<open>version\<close>, and have no property other than \<open>jsonrpc\<close>, \<open>id\<close>, \<open>method\<close>,
  \<open>params\<close>, \<open>result\<close> and \<open>error\<close>.
\<close>

theorem wire_messages_carry_jsonrpc:
  "sentMessages (snd (snd (call m params c))) = [request (nextId c) m params] \<and>
   sentMessages (notify m params) = [notification m params] \<and>
   list_all carriesJsonrpc (sentMessages (snd (snd (call m params c)))) \<and>
   list_all carriesJsonrpc (sentMessages (notify m params)) \<and>
   list_all carriesJsonrpc (sentMessages (fst (handleMessage now message srv w)))"
  by (simp add: call_def Let_def notify_def sentMessages_def carriesJsonrpc_request
      carriesJsonrpc_notification handleMessage_carriesJsonrpc [unfolded sentMessages_def])

theorem wire_messages_carry_jsonrpc_witness:
  "sentMessages (snd (snd (call ''daemon.ping'' JUndefined (newDaemonClient None)))) =
     [[(''jsonrpc'', JStr ''2.0''), (''id'', JNum 1), (''method'', JStr ''daemon.ping''),
       (''params'', JUndefined)]] \<and>
   sentMessages (fst (handleMessage 5 (request 1 ''daemon.ping'' JUndefined) (newDaemonServer 0) ())) =
     [[(''jsonrpc'', JStr ''2.0''), (''id'', JNum 1),
       (''result'', JObj [(''status'', JStr ''ok''), (''uptime'', JNum 5)])]] \<and>
   list_all carriesJsonrpc
     (sentMessages (fst (handleMessage 5 (request 1 ''daemon.ping'' JUndefined) (newDaemonServer 0) ())))"
proof -
  have "handleMessage 5 (request 1 ''daemon.ping'' JUndefined) (newDaemonServer 0) () =
      ([Send (resultResponse (JNum 1) (JObj [(''status'', JStr ''ok''), (''uptime'', JNum 5)]))], ())"
    by (simp add: handleMessage_def request_fields lookupHandler_def newDaemonServer_def
        registerMethod_def pingHandler_def sendResult_def)
  then show ?thesis
    using wire_messages_carry_jsonrpc [of "''daemon.ping''" JUndefined "newDaemonClient None"
        5 "request 1 ''daemon.ping'' JUndefined" "newDaemonServer 0" "()"]
    by (simp add: sentMessages_def resultResponse_def request_def newDaemonClient_def)
qed

text \<open>
  C9 as the claim states it fails: the request that a new client sends for
  \<open>call('daemon.ping')\<close> has the properties \<open>jsonrpc\<close>, \<open>id\<close>, \<open>method\<close> and
  \<open>params\<close>, and none named \<open>version\<close>.
\<close>

theorem wire_version_field_counterexample:
  "snd (snd (call ''daemon.ping'' JUndefined (newDaemonClient None))) =
     [Send [(''jsonrpc'', JStr ''2.0''), (''id'', JNum 1), (''method'', JStr ''daemon.ping''),
            (''params'', JUndefined)]] \<and>
   \<not> hasKey ''version'' [(''jsonrpc'', JStr ''2.0''), (''id'', JNum 1),
        (''method'', JStr ''daemon.ping''), (''params'', JUndefined)] \<and>
   field ''version'' [(''jsonrpc'', JStr ''2.0''), (''id'', JNum 1),
        (''method'', JStr ''daemon.ping''), (''params'', JUndefined)] \<noteq> JStr ''2.0''"
  by (simp add: call_def Let_def newDaemonClient_def request_def hasKey_def field_def)

section \<open>Properties of the transports\<close>







section \<open>Properties of the client\<close>

lemma idOf_inject [simp]: "idOf h = idOf h' \<longleftrightarrow> h = h'"
  by (simp add: idOf_def)

lemma clientInv_new: "clientInv (newDaemonClient opt)"
  by (simp add: clientInv_def newDaemonClient_def settlementsOf_def)

lemma clientInv_call:
  assumes "clientInv c" and "nextId c < 2 ^ 53"
  shows "clientInv (fst (call m params c))"
proof -
  have id: "JNum (nextId c) = idOf (created c)"
    using assms(1) by (simp add: clientInv_def idOf_def)
  have fresh: "map_of (pending c) (idOf (created c)) = None"
  proof (cases "map_of (pending c) (idOf (created c))")
    case (Some p)
    with assms(1) have "promise p < created c" "idOf (created c) = idOf (promise p)"
      unfolding clientInv_def by blast+
    then show ?thesis by simp
  qed simp
  show ?thesis
    using assms fresh unfolding clientInv_def call_def Let_def id
    by (auto simp: increment_def update_conv' distinct_update settlementsOf_def less_Suc_eq
        split: if_splits)
qed

lemma clientInv_pendingD:
  assumes "clientInv c" and "map_of (pending c) k = Some p"
  shows "promise p < created c" and "timer p = promise p" and "k = idOf (promise p)"
  using assms unfolding clientInv_def by blast+

lemma clientInv_timersD:
  assumes "clientInv c" and "map_of (timers c) t = Some (k, m, h)"
  shows "h = t" and "k = idOf t" and "map_of (pending c) (idOf t) \<noteq> None"
proof -
  show "h = t" and "k = idOf t"
    using assms unfolding clientInv_def by blast+
  have "map_of (timers c) t \<noteq> None"
    using assms(2) by simp
  then show "map_of (pending c) (idOf t) \<noteq> None"
    using assms(1) unfolding clientInv_def by blast
qed

lemma clientInv_settledD:
  assumes "clientInv c"
  shows "length (settlementsOf h c) =
    (if h < created c \<and> map_of (pending c) (idOf h) = None then 1 else 0)"
  using assms unfolding clientInv_def by blast

lemma clientInv_armedD:
  assumes "clientInv c"
  shows "(map_of (timers c) h \<noteq> None) = (map_of (pending c) (idOf h) \<noteq> None)"
  using assms unfolding clientInv_def by blast

lemma clientInv_finish:
  assumes "clientInv c" and "map_of (pending c) (idOf h) \<noteq> None"
  shows "clientInv (finish h r c)"
proof -
  obtain p where p: "map_of (pending c) (idOf h) = Some p"
    using assms(2) by blast
  have hc: "h < created c"
    using clientInv_pendingD [OF assms(1) p] by simp
  have len: "length (settlementsOf h' (finish h r c)) =
      length (settlementsOf h' c) + (if h' = h then 1 else 0)" for h'
    by (simp add: settlementsOf_def finish_def)
  have pend: "map_of (pending (finish h r c)) k =
      (if k = idOf h then None else map_of (pending c) k)" for k
    by (simp add: finish_def delete_conv')
  have tim: "map_of (timers (finish h r c)) t =
      (if t = h then None else map_of (timers c) t)" for t
    by (simp add: finish_def delete_conv')
  have 1: "nextId (finish h r c) = int (created (finish h r c)) + 1"
    using assms(1) by (simp add: finish_def clientInv_def)
  have 2: "distinct (map fst (pending (finish h r c)))"
    using assms(1) by (simp add: finish_def clientInv_def distinct_delete)
  have 3: "promise q < created (finish h r c) \<and> timer q = promise q \<and> k = idOf (promise q)"
    if "map_of (pending (finish h r c)) k = Some q" for k q
  proof -
    from that have "map_of (pending c) k = Some q"
      unfolding pend by (simp split: if_splits)
    from clientInv_pendingD [OF assms(1) this] show ?thesis
      by (simp add: finish_def)
  qed
  have 4: "h' = t \<and> k = idOf t"
    if "map_of (timers (finish h r c)) t = Some (k, m, h')" for t k m h'
  proof -
    from that have "map_of (timers c) t = Some (k, m, h')"
      unfolding tim by (simp split: if_splits)
    from clientInv_timersD(1,2) [OF assms(1) this] show ?thesis
      by simp
  qed
  have 5: "(map_of (timers (finish h r c)) h' \<noteq> None) =
      (map_of (pending (finish h r c)) (idOf h') \<noteq> None)" for h'
    unfolding pend tim using clientInv_armedD [OF assms(1), of h'] by simp
  have 6: "length (settlementsOf h' (finish h r c)) =
      (if h' < created (finish h r c) \<and> map_of (pending (finish h r c)) (idOf h') = None
       then 1 else 0)" for h'
  proof -
    have cr: "created (finish h r c) = created c"
      by (simp add: finish_def)
    show ?thesis
      unfolding len pend cr
      using clientInv_settledD [OF assms(1), of h'] p hc by simp
  qed
  show ?thesis
    unfolding clientInv_def using 1 2 3 4 5 6 by blast
qed

lemma timerFires_finish:
  assumes "clientInv c" and "map_of (timers c) t = Some (k, m, h)"
  shows "timerFires t c =
    finish t (Rejected (''RPC timeout: '' @ m @ '' ('' @ toStringRadix 10 (timeout c) @ ''ms)'') JUndefined) c"
  using clientInv_timersD(1,2) [OF assms] assms(2)
  by (simp add: timerFires_def finish_def settle_def clearTimeout_def)

lemma timerFires_unarmed: "map_of (timers c) t = None \<Longrightarrow> timerFires t c = c"
  by (simp add: timerFires_def)

lemma clientInv_timerFires: "clientInv c \<Longrightarrow> clientInv (timerFires t c)"
proof (cases "map_of (timers c) t")
  case None
  assume "clientInv c"
  with None show ?thesis by (simp add: timerFires_unarmed)
next
  case (Some x)
  assume inv: "clientInv c"
  obtain k m h where x: "x = (k, m, h)" by (cases x)
  have armed: "map_of (timers c) t = Some (k, m, h)"
    using Some x by simp
  show ?thesis
    unfolding timerFires_finish [OF inv armed]
    by (rule clientInv_finish [OF inv clientInv_timersD(3) [OF inv armed]])
qed

lemma response_finish:
  assumes "clientInv c" and "hasKey ''id'' message" and "\<not> hasKey ''method'' message"
    and "map_of (pending c) (field ''id'' message) = Some p"
  shows "clientHandleMessage message c = finish (promise p) (responseSettlement message) c"
  using clientInv_pendingD(2,3) [OF assms(1,4)] assms(2,3,4)
  by (simp add: clientHandleMessage_def Let_def finish_def settle_def clearTimeout_def
      responseSettlement_def)

lemma clientInv_notification:
  "clientInv c \<Longrightarrow> clientInv (c\<lparr>delivered := d\<rparr>)"
  by (simp add: clientInv_def settlementsOf_def)

lemma clientInv_clientHandleMessage:
  assumes "clientInv c"
  shows "clientInv (clientHandleMessage message c)"
proof (cases "hasKey ''id'' message \<and> \<not> hasKey ''method'' message")
  case True
  show ?thesis
  proof (cases "map_of (pending c) (field ''id'' message)")
    case None
    with True assms show ?thesis by (simp add: clientHandleMessage_def)
  next
    case (Some p)
    have "map_of (pending c) (idOf (promise p)) \<noteq> None"
      using clientInv_pendingD(3) [OF assms Some] Some by auto
    from clientInv_finish [OF assms this] show ?thesis
      unfolding response_finish [OF assms conjunct1 [OF True] conjunct2 [OF True] Some] .
  qed
next
  case False
  then show ?thesis
    using assms by (auto simp: clientHandleMessage_def clientInv_notification)
qed

lemma clientInv_onNotification: "clientInv c \<Longrightarrow> clientInv (onNotification m h c)"
  by (simp add: clientInv_def onNotification_def settlementsOf_def)
lemma closeEntry_finish:
  assumes "clientInv c" and "map_of (pending c) k = Some p"
  shows "closeEntry (k, p) c = finish (promise p) (Rejected ''Client closed'' JUndefined) c"
  using clientInv_pendingD(2,3) [OF assms]
  by (simp add: closeEntry_def Let_def finish_def settle_def clearTimeout_def)

lemma pending_entry:
  assumes "clientInv c" and "e \<in> set (pending c)"
  shows "map_of (pending c) (fst e) = Some (snd e)"
proof -
  have "distinct (map fst (pending c))"
    using assms(1) unfolding clientInv_def by blast
  then show ?thesis
    using assms(2) by (cases e) simp
qed

lemma same_key_same_entry:
  assumes "clientInv c" and "e \<in> set (pending c)" and "x \<in> set (pending c)"
    and "fst x = fst e"
  shows "x = e"
  using pending_entry [OF assms(1,2)] pending_entry [OF assms(1,3)] assms(4)
  by (simp add: prod_eq_iff)

lemma fold_closeEntry:
  assumes "clientInv c" and "distinct (map fst es)" and "set es \<subseteq> set (pending c)"
  shows "clientInv (fold closeEntry es c) \<and>
         pending (fold closeEntry es c) = filter (\<lambda>x. x \<notin> set es) (pending c) \<and>
         settled (fold closeEntry es c) =
           settled c @ map (\<lambda>e. (promise (snd e), Rejected ''Client closed'' JUndefined)) es \<and>
         created (fold closeEntry es c) = created c"
  using assms
proof (induction es arbitrary: c)
  case Nil
  then show ?case by simp
next
  case (Cons e es)
  let ?h = "promise (snd e)"
  let ?c1 = "finish ?h (Rejected ''Client closed'' JUndefined) c"
  have e: "map_of (pending c) (fst e) = Some (snd e)"
    using pending_entry [OF Cons.prems(1)] Cons.prems(3) by simp
  have key: "fst e = idOf ?h"
    using clientInv_pendingD(3) [OF Cons.prems(1) e] .
  have step: "closeEntry e c = ?c1"
    using closeEntry_finish [OF Cons.prems(1) e] by simp
  have inv1: "clientInv ?c1"
    by (rule clientInv_finish [OF Cons.prems(1)]) (use e key in simp)
  have pend1: "pending ?c1 = filter (\<lambda>x. x \<noteq> e) (pending c)"
  proof -
    have "pending ?c1 = filter (\<lambda>x. fst x \<noteq> fst e) (pending c)"
      by (simp add: finish_def key [symmetric] AList.delete_eq case_prod_unfold)
        (metis (mono_tags, lifting))
    also have "\<dots> = filter (\<lambda>x. x \<noteq> e) (pending c)"
    proof (rule filter_cong [OF refl])
      fix x assume "x \<in> set (pending c)"
      then show "(fst x \<noteq> fst e) = (x \<noteq> e)"
        using same_key_same_entry [OF Cons.prems(1) _ \<open>x \<in> set (pending c)\<close>, of e]
          Cons.prems(3) by auto
    qed
    finally show ?thesis .
  qed
  have sub: "set es \<subseteq> set (pending ?c1)"
    using Cons.prems(2,3) unfolding pend1 by auto
  have dist: "distinct (map fst es)"
    using Cons.prems(2) by simp
  note ih = Cons.IH [OF inv1 dist sub]
  have "filter (\<lambda>x. x \<notin> set es) (pending ?c1) = filter (\<lambda>x. x \<notin> set (e # es)) (pending c)"
    unfolding pend1 by (simp add: conj_commute)
  moreover have "settled ?c1 = settled c @ [(?h, Rejected ''Client closed'' JUndefined)]"
    and "created ?c1 = created c"
    by (simp_all add: finish_def)
  ultimately show ?case
    using ih by (simp add: step)
qed

lemma map_of_Nil_conv: "(\<And>k. map_of al k = None) \<Longrightarrow> al = []"
proof (cases al)
  case (Cons e es)
  assume "\<And>k. map_of al k = None"
  from this [of "fst e"] Cons show ?thesis by simp
qed simp

lemma clientInv_no_pending_no_timers:
  assumes "clientInv c" and "pending c = []"
  shows "timers c = []"
proof (rule map_of_Nil_conv)
  fix k
  show "map_of (timers c) k = None"
    using clientInv_armedD [OF assms(1), of k] assms(2)
    by (cases "map_of (timers c) k") auto
qed

lemma close_result:
  assumes "clientInv c"
  shows "clientInv (fst (close c))"
    and "pending (fst (close c)) = []"
    and "timers (fst (close c)) = []"
    and "notificationHandlers (fst (close c)) = []"
    and "settled (fst (close c)) =
      settled c @ map (\<lambda>e. (promise (snd e), Rejected ''Client closed'' JUndefined)) (pending c)"
    and "created (fst (close c)) = created c"
    and "snd (close c) = [CloseTransport]"
proof -
  have d: "distinct (map fst (pending c))"
    using assms unfolding clientInv_def by blast
  note f = fold_closeEntry [OF assms d subset_refl]
  have p: "pending (fold closeEntry (pending c) c) = []"
    using f by simp
  have inv: "clientInv (fold closeEntry (pending c) c)"
    using f by blast
  show "clientInv (fst (close c))"
    using inv by (simp add: close_def clientInv_def settlementsOf_def)
  show "pending (fst (close c)) = []"
    using p by (simp add: close_def)
  show "timers (fst (close c)) = []"
    using clientInv_no_pending_no_timers [OF inv p] by (simp add: close_def)
  show "notificationHandlers (fst (close c)) = []"
    by (simp add: close_def)
  show "settled (fst (close c)) =
      settled c @ map (\<lambda>e. (promise (snd e), Rejected ''Client closed'' JUndefined)) (pending c)"
    using f by (simp add: close_def)
  show "created (fst (close c)) = created c"
    using f by (simp add: close_def)
  show "snd (close c) = [CloseTransport]"
    by (simp add: close_def)
qed

lemma nextId_fold_closeEntry: "nextId (fold closeEntry es c) = nextId c"
  by (induction es arbitrary: c) (simp_all add: closeEntry_def Let_def settle_def clearTimeout_def)

lemma nextId_clientStep: "nextId c \<le> nextId (clientStep ev c)"
proof (cases ev)
  case (Call m params)
  then show ?thesis by (simp add: call_def Let_def increment_def)
next
  case (Receive message)
  then show ?thesis
    by (simp add: clientHandleMessage_def Let_def settle_def clearTimeout_def split: option.splits)
next
  case (TimerFires t)
  then show ?thesis
    by (simp add: timerFires_def settle_def clearTimeout_def split: option.splits)
next
  case (OnNotification m h)
  then show ?thesis by (simp add: onNotification_def)
next
  case Close
  then show ?thesis by (simp add: close_def nextId_fold_closeEntry)
qed

lemma nextId_clientRun: "nextId c \<le> nextId (clientRun evs c)"
proof (induction evs arbitrary: c)
  case Nil
  show ?case by (simp add: clientRun_def)
next
  case (Cons ev evs)
  have "nextId c \<le> nextId (clientStep ev c)"
    by (rule nextId_clientStep)
  also have "\<dots> \<le> nextId (clientRun evs (clientStep ev c))"
    by (rule Cons.IH)
  finally show ?case by (simp add: clientRun_def)
qed

lemma clientInv_clientStep:
  assumes "clientInv c" and "nextId c < 2 ^ 53"
  shows "clientInv (clientStep ev c)"
proof (cases ev)
  case (Call m params)
  then show ?thesis using clientInv_call [OF assms] by simp
next
  case (Receive message)
  then show ?thesis using clientInv_clientHandleMessage [OF assms(1)] by simp
next
  case (TimerFires t)
  then show ?thesis using clientInv_timerFires [OF assms(1)] by simp
next
  case (OnNotification m h)
  then show ?thesis using clientInv_onNotification [OF assms(1)] by simp
next
  case Close
  then show ?thesis using close_result(1) [OF assms(1)] by simp
qed

lemma clientInv_clientRun:
  assumes "clientInv c" and "nextId (clientRun evs c) < 2 ^ 53"
  shows "clientInv (clientRun evs c)"
  using assms
proof (induction evs arbitrary: c)
  case Nil
  then show ?case by (simp add: clientRun_def)
next
  case (Cons ev evs)
  have run: "clientRun (ev # evs) c = clientRun evs (clientStep ev c)"
    by (simp add: clientRun_def)
  have "nextId c \<le> nextId (clientRun (ev # evs) c)"
    by (rule nextId_clientRun)
  with Cons.prems(2) have "nextId c < 2 ^ 53"
    by simp
  from clientInv_clientStep [OF Cons.prems(1) this]
  have "clientInv (clientStep ev c)" .
  from Cons.IH [OF this] Cons.prems(2) show ?case
    unfolding run by simp
qed
lemma settlementsOf_finish:
  "settlementsOf h' (finish h r c) = settlementsOf h' c @ (if h' = h then [r] else [])"
  by (simp add: settlementsOf_def finish_def)

lemma pending_finish: "map_of (pending (finish h r c)) (idOf h) = None"
  by (simp add: finish_def delete_conv')

lemma unsettled_while_pending:
  assumes "clientInv c" and "map_of (pending c) (idOf h) \<noteq> None"
  shows "settlementsOf h c = []"
  using clientInv_settledD [OF assms(1), of h] assms(2) by simp

lemma singleton_of_constant:
  assumes "length xs = 1" and "\<And>x. x \<in> set xs \<Longrightarrow> x = r"
  shows "xs = [r]"
proof (cases xs)
  case (Cons x ys)
  with assms show ?thesis by simp
qed (use assms in simp)

lemma close_settlement:
  assumes "clientInv c" and "map_of (pending c) (idOf h) \<noteq> None"
  shows "settlementsOf h (fst (close c)) = [Rejected ''Client closed'' JUndefined]"
proof (rule singleton_of_constant)
  obtain p where p: "map_of (pending c) (idOf h) = Some p"
    using assms(2) by blast
  have h: "h < created c"
    using clientInv_pendingD [OF assms(1) p] by simp
  show "length (settlementsOf h (fst (close c))) = 1"
    using clientInv_settledD [OF close_result(1) [OF assms(1)], of h] close_result(2,6) [OF assms(1)] h
    by simp
  fix x assume "x \<in> set (settlementsOf h (fst (close c)))"
  then show "x = Rejected ''Client closed'' JUndefined"
    using unsettled_while_pending [OF assms]
    by (auto simp: settlementsOf_def close_result(5) [OF assms(1)] filter_empty_conv)
qed

lemma settled_or_pending:
  assumes "clientInv c" and "h < created c"
  shows "(map_of (pending c) (idOf h) \<noteq> None \<and> map_of (timers c) h \<noteq> None \<and>
            settlementsOf h c = []) \<or>
         (map_of (pending c) (idOf h) = None \<and> map_of (timers c) h = None \<and>
            length (settlementsOf h c) = 1)"
proof -
  have "(map_of (timers c) h = None) = (map_of (pending c) (idOf h) = None)"
    using clientInv_armedD [OF assms(1), of h] by blast
  then show ?thesis
    using clientInv_settledD [OF assms(1), of h] assms(2)
    by (cases "map_of (pending c) (idOf h)") simp_all
qed

lemma response_settlement:
  assumes "clientInv c" and "map_of (pending c) (idOf h) \<noteq> None"
    and "hasKey ''id'' message" and "\<not> hasKey ''method'' message"
    and "field ''id'' message = idOf h"
  shows "map_of (pending (clientHandleMessage message c)) (idOf h) = None"
    and "settlementsOf h (clientHandleMessage message c) = [responseSettlement message]"
proof -
  obtain p where p: "map_of (pending c) (field ''id'' message) = Some p"
    using assms(2,5) by auto
  have ph: "promise p = h"
    using clientInv_pendingD(3) [OF assms(1) p] assms(5) by simp
  note eq = response_finish [OF assms(1,3,4) p, unfolded ph]
  show "map_of (pending (clientHandleMessage message c)) (idOf h) = None"
    unfolding eq by (rule pending_finish)
  show "settlementsOf h (clientHandleMessage message c) = [responseSettlement message]"
    unfolding eq settlementsOf_finish using unsettled_while_pending [OF assms(1,2)] by simp
qed

lemma timeout_settlement:
  assumes "clientInv c" and "map_of (pending c) (idOf h) \<noteq> None"
  shows "map_of (pending (timerFires h c)) (idOf h) = None"
    and "\<exists>m. settlementsOf h (timerFires h c) =
      [Rejected (''RPC timeout: '' @ m @ '' ('' @ toStringRadix 10 (timeout c) @ ''ms)'') JUndefined]"
proof -
  have "map_of (timers c) h \<noteq> None"
    using clientInv_armedD [OF assms(1), of h] assms(2) by simp
  then obtain k m h' where t: "map_of (timers c) h = Some (k, m, h')"
    by (cases "map_of (timers c) h") auto
  note eq = timerFires_finish [OF assms(1) t]
  show "map_of (pending (timerFires h c)) (idOf h) = None"
    unfolding eq by (rule pending_finish)
  have "settlementsOf h (timerFires h c) =
      [Rejected (''RPC timeout: '' @ m @ '' ('' @ toStringRadix 10 (timeout c) @ ''ms)'') JUndefined]"
    unfolding eq settlementsOf_finish using unsettled_while_pending [OF assms(1,2)] by simp
  then show "\<exists>m. settlementsOf h (timerFires h c) =
      [Rejected (''RPC timeout: '' @ m @ '' ('' @ toStringRadix 10 (timeout c) @ ''ms)'') JUndefined]"
    by blast
qed

lemma call_result:
  assumes "clientInv c"
  shows "fst (snd (call m params c)) = created c"
    and "snd (snd (call m params c)) = [Send (request (int (created c) + 1) m params)]"
    and "map_of (pending (fst (call m params c))) (idOf (created c)) =
      Some \<lparr>promise = created c, timer = created c\<rparr>"
proof -
  have id: "nextId c = int (created c) + 1"
    using assms unfolding clientInv_def by blast
  show "fst (snd (call m params c)) = created c"
    by (simp add: call_def Let_def)
  show "snd (snd (call m params c)) = [Send (request (int (created c) + 1) m params)]"
    by (simp add: call_def Let_def id)
  show "map_of (pending (fst (call m params c))) (idOf (created c)) =
      Some \<lparr>promise = created c, timer = created c\<rparr>"
    by (simp add: call_def Let_def id update_conv' idOf_def)
qed

text \<open>
  C1. Take a client after any run of calls, messages received, timers firing,
  subscriptions and closes, in which fewer than \<open>2 ^ 53\<close> calls were issued (the ids are
  exact up to there). Its table has one entry per id. The next call gets a new promise
  and sends its request under the id one above the number of calls so far, and is then
  in the table under that id. Every call issued so far is either pending (in the table
  under its id, its timer armed, its promise not settled) or done (not in the table,
  its timer not armed, its promise settled exactly once). A pending call is settled and
  leaves the table by any of: a response with its id (resolved with the result, or
  rejected with the error), its timer firing (rejected with the timeout message), the
  client closing (rejected with \<open>Client closed\<close>).
\<close>

theorem call_settles_exactly_once:
  assumes "c = clientRun evs (newDaemonClient opt)" and "nextId c < 2 ^ 53"
  shows "distinct (map fst (pending c)) \<and>
         fst (snd (call m params c)) = created c \<and>
         snd (snd (call m params c)) = [Send (request (int (created c) + 1) m params)] \<and>
         map_of (pending (fst (call m params c))) (idOf (created c)) =
           Some \<lparr>promise = created c, timer = created c\<rparr> \<and>
         (\<forall>h. h < created c \<longrightarrow>
            (map_of (pending c) (idOf h) \<noteq> None \<and> map_of (timers c) h \<noteq> None \<and>
               settlementsOf h c = []) \<or>
            (map_of (pending c) (idOf h) = None \<and> map_of (timers c) h = None \<and>
               length (settlementsOf h c) = 1)) \<and>
         (\<forall>h. map_of (pending c) (idOf h) \<noteq> None \<longrightarrow>
            (\<forall>message. hasKey ''id'' message \<and> \<not> hasKey ''method'' message \<and>
                 field ''id'' message = idOf h \<longrightarrow>
               map_of (pending (clientHandleMessage message c)) (idOf h) = None \<and>
               settlementsOf h (clientHandleMessage message c) = [responseSettlement message]) \<and>
            map_of (pending (timerFires h c)) (idOf h) = None \<and>
            (\<exists>name. settlementsOf h (timerFires h c) =
               [Rejected (''RPC timeout: '' @ name @ '' ('' @ toStringRadix 10 (timeout c) @ ''ms)'')
                  JUndefined]) \<and>
            map_of (pending (fst (close c))) (idOf h) = None \<and>
            settlementsOf h (fst (close c)) = [Rejected ''Client closed'' JUndefined])"
proof -
  have inv: "clientInv c"
    unfolding assms(1)
    by (rule clientInv_clientRun [OF clientInv_new]) (use assms in simp)
  have "distinct (map fst (pending c))"
    using inv unfolding clientInv_def by blast
  moreover note call_result [OF inv, of m params]
  moreover have "\<forall>h. h < created c \<longrightarrow>
            (map_of (pending c) (idOf h) \<noteq> None \<and> map_of (timers c) h \<noteq> None \<and>
               settlementsOf h c = []) \<or>
            (map_of (pending c) (idOf h) = None \<and> map_of (timers c) h = None \<and>
               length (settlementsOf h c) = 1)"
    using settled_or_pending [OF inv] by blast
  moreover have "\<forall>message. hasKey ''id'' message \<and> \<not> hasKey ''method'' message \<and>
                 field ''id'' message = idOf h \<longrightarrow>
               map_of (pending (clientHandleMessage message c)) (idOf h) = None \<and>
               settlementsOf h (clientHandleMessage message c) = [responseSettlement message]"
    if "map_of (pending c) (idOf h) \<noteq> None" for h
    using response_settlement [OF inv that] by blast
  moreover have "map_of (pending (timerFires h c)) (idOf h) = None \<and>
            (\<exists>name. settlementsOf h (timerFires h c) =
               [Rejected (''RPC timeout: '' @ name @ '' ('' @ toStringRadix 10 (timeout c) @ ''ms)'')
                  JUndefined])"
    if "map_of (pending c) (idOf h) \<noteq> None" for h
    using timeout_settlement [OF inv that] by blast
  moreover have "map_of (pending (fst (close c))) (idOf h) = None \<and>
            settlementsOf h (fst (close c)) = [Rejected ''Client closed'' JUndefined]"
    if "map_of (pending c) (idOf h) \<noteq> None" for h
    using close_settlement [OF inv that] close_result(2) [OF inv] by simp
  ultimately show ?thesis
    by blast
qed

text \<open>
  C8. For a client as in C1, \<open>close\<close> calls \<open>transport.close\<close>, leaves the table of
  pending requests, the armed timers and the notification handlers empty, and rejects
  the promise of every call that was pending with an error whose message is
  \<open>Client closed\<close>, once each and in the order of the table. Afterwards every promise
  the client ever returned is settled exactly once, and no timer can fire (the
  callback of a timer that is not armed does not run).
\<close>

theorem close_rejects_all_pending:
  assumes "c = clientRun evs (newDaemonClient opt)" and "nextId c < 2 ^ 53"
  shows "snd (close c) = [CloseTransport] \<and>
         pending (fst (close c)) = [] \<and>
         timers (fst (close c)) = [] \<and>
         notificationHandlers (fst (close c)) = [] \<and>
         settled (fst (close c)) =
           settled c @
           map (\<lambda>e. (promise (snd e), Rejected ''Client closed'' JUndefined)) (pending c) \<and>
         (\<forall>h. map_of (pending c) (idOf h) \<noteq> None \<longrightarrow>
            settlementsOf h (fst (close c)) = [Rejected ''Client closed'' JUndefined]) \<and>
         (\<forall>h. h < created c \<longrightarrow> length (settlementsOf h (fst (close c))) = 1) \<and>
         (\<forall>t. timerFires t (fst (close c)) = fst (close c))"
proof -
  have inv: "clientInv c"
    unfolding assms(1)
    by (rule clientInv_clientRun [OF clientInv_new]) (use assms in simp)
  note r = close_result [OF inv]
  have "length (settlementsOf h (fst (close c))) = 1" if "h < created c" for h
    using clientInv_settledD [OF r(1), of h] r(2,6) that by simp
  moreover have "timerFires t (fst (close c)) = fst (close c)" for t
    by (rule timerFires_unarmed) (simp add: r(3))
  ultimately show ?thesis
    using r(2,3,4,5,7) close_settlement [OF inv] by blast
qed
lemma twoCalls_state:
  "clientRun twoCalls (newDaemonClient (Some 50)) =
     \<lparr>timeout = 50, nextId = 3, pending = [(JNum 2, \<lparr>promise = 1, timer = 1\<rparr>)],
      notificationHandlers = [], created = 2,
      timers = [(1, JNum 2, ''task.list'', 1)],
      settled = [(0, Resolved (JObj [(''status'', JStr ''ok''), (''uptime'', JNum 5)]))],
      delivered = []\<rparr>"
  by (simp add: clientRun_def twoCalls_def newDaemonClient_def call_def Let_def increment_def
      clientHandleMessage_def resultResponse_def hasKey_def field_def truthy_def settle_def
      clearTimeout_def)

text \<open>
  A client with a timeout of 50 ms after two calls and the response to the first: the
  first promise is resolved, the second call is pending; its timer firing rejects it
  with the timeout message, and closing instead rejects it with \<open>Client closed\<close>.
\<close>

theorem call_settles_exactly_once_witness:
  "nextId (clientRun twoCalls (newDaemonClient (Some 50))) < 2 ^ 53 \<and>
   1 < created (clientRun twoCalls (newDaemonClient (Some 50))) \<and>
   map_of (pending (clientRun twoCalls (newDaemonClient (Some 50)))) (idOf 1) \<noteq> None \<and>
   settlementsOf 0 (clientRun twoCalls (newDaemonClient (Some 50))) =
     [Resolved (JObj [(''status'', JStr ''ok''), (''uptime'', JNum 5)])] \<and>
   settlementsOf 1 (clientRun twoCalls (newDaemonClient (Some 50))) = [] \<and>
   map_of (pending (timerFires 1 (clientRun twoCalls (newDaemonClient (Some 50))))) (idOf 1) = None \<and>
   settlementsOf 1 (timerFires 1 (clientRun twoCalls (newDaemonClient (Some 50)))) =
     [Rejected ''RPC timeout: task.list (50ms)'' JUndefined] \<and>
   map_of (pending (fst (close (clientRun twoCalls (newDaemonClient (Some 50)))))) (idOf 1) = None \<and>
   settlementsOf 1 (fst (close (clientRun twoCalls (newDaemonClient (Some 50))))) =
     [Rejected ''Client closed'' JUndefined]"
proof -
  let ?c = "clientRun twoCalls (newDaemonClient (Some 50))"
  have n: "nextId ?c < 2 ^ 53"
    by (simp add: twoCalls_state)
  have p: "map_of (pending ?c) (idOf 1) \<noteq> None"
    by (simp add: twoCalls_state idOf_def)
  have s: "settlementsOf 0 ?c = [Resolved (JObj [(''status'', JStr ''ok''), (''uptime'', JNum 5)])]"
    "settlementsOf 1 ?c = []" "1 < created ?c"
    by (simp_all add: twoCalls_state settlementsOf_def)
  have t: "settlementsOf 1 (timerFires 1 ?c) =
      [Rejected ''RPC timeout: task.list (50ms)'' JUndefined]"
    by (simp add: twoCalls_state timerFires_def settle_def clearTimeout_def settlementsOf_def)
      code_simp
  from call_settles_exactly_once [OF refl n, where m = "''task.get''" and params = JUndefined] p
  have "map_of (pending (timerFires 1 ?c)) (idOf 1) = None \<and>
      map_of (pending (fst (close ?c))) (idOf 1) = None \<and>
      settlementsOf 1 (fst (close ?c)) = [Rejected ''Client closed'' JUndefined]"
    by blast
  with n p s t show ?thesis
    by blast
qed
text \<open>The same client, closed while its second call is pending.\<close>

theorem close_rejects_all_pending_witness:
  "nextId (clientRun twoCalls (newDaemonClient (Some 50))) < 2 ^ 53 \<and>
   map_of (pending (clientRun twoCalls (newDaemonClient (Some 50)))) (idOf 1) \<noteq> None \<and>
   timers (clientRun twoCalls (newDaemonClient (Some 50))) = [(1, JNum 2, ''task.list'', 1)] \<and>
   snd (close (clientRun twoCalls (newDaemonClient (Some 50)))) = [CloseTransport] \<and>
   pending (fst (close (clientRun twoCalls (newDaemonClient (Some 50))))) = [] \<and>
   timers (fst (close (clientRun twoCalls (newDaemonClient (Some 50))))) = [] \<and>
   settled (fst (close (clientRun twoCalls (newDaemonClient (Some 50))))) =
     [(0, Resolved (JObj [(''status'', JStr ''ok''), (''uptime'', JNum 5)])),
      (1, Rejected ''Client closed'' JUndefined)] \<and>
   timerFires 1 (fst (close (clientRun twoCalls (newDaemonClient (Some 50))))) =
     fst (close (clientRun twoCalls (newDaemonClient (Some 50))))"
proof -
  let ?c = "clientRun twoCalls (newDaemonClient (Some 50))"
  have n: "nextId ?c < 2 ^ 53"
    by (simp add: twoCalls_state)
  have p: "map_of (pending ?c) (idOf 1) \<noteq> None"
    "timers ?c = [(1, JNum 2, ''task.list'', 1)]"
    by (simp_all add: twoCalls_state idOf_def)
  have s: "settled ?c @
      map (\<lambda>e. (promise (snd e), Rejected ''Client closed'' JUndefined)) (pending ?c) =
      [(0, Resolved (JObj [(''status'', JStr ''ok''), (''uptime'', JNum 5)])),
       (1, Rejected ''Client closed'' JUndefined)]"
    by (simp add: twoCalls_state)
  from close_rejects_all_pending [OF refl n] n p show ?thesis
    unfolding s by blast
qed
section \<open>Properties of the string functions\<close>






lemma split_on_not_Nil: "split_on d s \<noteq> []"
  by (induction s) (auto split: list.splits)







section \<open>The code against the documented cron syntax\<close>





















section \<open>The next run time\<close>











end
